theory Spec2Isabelle
  imports Complex_Main "HOL-Library.Monad_Syntax" "HOL-Library.Multiset"
begin

section \<open>The MetaGrid measurement harnesses\<close>

text \<open>
  A shallow embedding of the three Go programs under \<^verbatim>\<open>Testing/\<close>:
  \<^verbatim>\<open>Failure/main.go\<close> (failure-recovery timing), \<^verbatim>\<open>StartupTime/main.go\<close> (startup timing)
  and \<^verbatim>\<open>Latency/main.go\<close> (concurrent load generator).

  The programs talk to the outside world (HTTP, the file system, \<^verbatim>\<open>docker-compose\<close>, the
  clock). The outside world is a record \<open>env\<close> of oracles, the program's own state (the
  monotonic clock reading, the process working directory, the package-level variables, the
  sequence of effects issued so far) is a record \<open>state\<close> that every function takes and
  returns. Names carry the suffix \<open>_F\<close> for the failure-recovery harness and \<open>_S\<close> for the
  startup-time harness where the two files differ. Console output (\<^verbatim>\<open>fmt.Printf\<close>) is
  not modelled, nor is the goroutine that waits for an interrupt signal: the runs
  described are the runs without an interrupt.
\<close>

subsection \<open>Time\<close>

text \<open>
  The clock is Go's monotonic clock, in nanoseconds (\<^verbatim>\<open>time.Duration\<close> counts
  nanoseconds). It advances only inside blocking calls: a sleep, an external command, an
  HTTP request, a \<^verbatim>\<open>select\<close> that waits.
\<close>

definition Second :: nat where
  "Second = 1000000000"

definition Minute :: nat where
  "Minute = 60 * Second"

text \<open>\<^verbatim>\<open>time.Since(start)\<close>: the duration from \<open>start\<close> to the clock reading \<open>now\<close>.\<close>

definition Since :: "nat \<Rightarrow> nat \<Rightarrow> int" where
  "Since start now = int now - int start"

text \<open>
  \<^verbatim>\<open>Duration.Seconds()\<close>: whole seconds plus the nanosecond rest over \<open>1e9\<close>, as the Go
  library computes it; \<^verbatim>\<open>float64\<close> is read as a real number (rounding is not modelled).
  The durations that occur are not negative, where Go's truncating division and \<open>div\<close>
  agree.
\<close>

definition Seconds :: "int \<Rightarrow> real" where
  "Seconds d = real_of_int (d div 1000000000) + real_of_int (d mod 1000000000) / 1000000000"

subsection \<open>HTTP replies and JSON payloads\<close>

datatype json =
    JNull
  | JBool bool
  | JNum string
  | JStr string
  | JArr "json list"
  | JObj "(string \<times> json) list"

text \<open>The bytes of a response body: not JSON at all, or one JSON value.\<close>

datatype payload = NotJSON | Json json

text \<open>
  What an HTTP GET gives: an error (\<^verbatim>\<open>err != nil\<close>: connection refused, timeout, ...), or
  a response with its status code and the result of reading the body to its end
  (\<open>None\<close> when \<^verbatim>\<open>ioutil.ReadAll\<close> fails).
\<close>

datatype http_result = ReqErr | Resp nat "payload option"

subsection \<open>The outside world and the program state\<close>

datatype event =
    EvGetwd
  | EvHttpGet string
  | EvWalk string
  | EvChdir string
  | EvSleep nat
  | EvNow nat
  | EvRun "string list" string nat nat
  | EvCreate string
  | EvWrite string string
  | EvFlush string
  | EvClose string
  | EvExit nat

text \<open>
  \<open>EvRun argv dir begin end\<close> is one \<^verbatim>\<open>cmd.Run()\<close>: the argument vector, the command's
  \<^verbatim>\<open>Dir\<close> field (empty when the code leaves it unset, then the command runs in the
  process working directory), and the clock readings when it starts and when it returns.
  \<open>EvNow t\<close> is a \<^verbatim>\<open>time.Now()\<close> that reads a start instant.
\<close>

record env =
  StartDir :: string
  GetwdOk :: bool
  Join :: "string list \<Rightarrow> string"
  Base :: "string \<Rightarrow> string"
  ToLower :: "string \<Rightarrow> string"
  FormatFloat2 :: "real \<Rightarrow> string"
  HttpGet :: "nat \<Rightarrow> string \<Rightarrow> http_result \<times> nat"
  NeverReturns :: "nat \<Rightarrow> string \<Rightarrow> bool"
  ValidURL :: "string \<Rightarrow> bool"
  WalkDirs :: "string \<Rightarrow> string list \<times> bool"
  ChdirOk :: "string \<Rightarrow> bool"
  RunCmd :: "nat \<Rightarrow> string \<Rightarrow> string list \<Rightarrow> bool \<times> nat"
  CreateOk :: "string \<Rightarrow> bool"
  Pick :: "nat \<Rightarrow> nat \<Rightarrow> bool"
  MemoryFor :: "nat \<Rightarrow> bool"

text \<open>
  \<^item> \<open>StartDir\<close>, \<open>GetwdOk\<close>: the directory the process starts in and whether
    \<^verbatim>\<open>os.Getwd\<close> succeeds.
  \<^item> \<open>Join\<close>, \<open>Base\<close>, \<open>ToLower\<close>, \<open>FormatFloat2\<close>: \<^verbatim>\<open>filepath.Join\<close>,
    \<^verbatim>\<open>filepath.Base\<close>, \<^verbatim>\<open>strings.ToLower\<close> and the \<^verbatim>\<open>%.2f\<close> verb of the Go library.
  \<^item> \<open>HttpGet t url\<close>: what a GET of \<open>url\<close> issued at clock reading \<open>t\<close> gives and how
    long it takes, when it returns and the client sets no timeout.
  \<^item> \<open>NeverReturns t url\<close>: the server never answers a GET of \<open>url\<close> issued at \<open>t\<close>.
    Under a client timeout such a GET ends in an error when the timeout expires; without
    one (\<^verbatim>\<open>http.Get\<close>) the call does not return. The polling loop looks at it where it
    calls the registry probe; the one pre-flight query of main is taken to return.
  \<^item> \<open>ValidURL\<close>: whether \<^verbatim>\<open>http.NewRequest\<close> accepts the URL.
  \<^item> \<open>WalkDirs root\<close>: the directories below \<open>root\<close> that \<^verbatim>\<open>filepath.Walk\<close> visits, in
    its order, and whether the walk ends without an error.
  \<^item> \<open>ChdirOk\<close>, \<open>CreateOk\<close>: whether \<^verbatim>\<open>os.Chdir\<close>, \<^verbatim>\<open>os.Create\<close> succeed on a path.
  \<^item> \<open>RunCmd t dir argv\<close>: whether the command \<open>argv\<close>, started at \<open>t\<close> in directory
    \<open>dir\<close>, exits with success, and how long it runs.
  \<^item> \<open>Pick t0 i\<close>: the pseudo-random choice of the \<open>i\<close>-th \<^verbatim>\<open>select\<close> of the polling
    loop started at \<open>t0\<close> when both of its cases can proceed: \<open>True\<close> takes the timeout
    case.
  \<^item> \<open>MemoryFor n\<close>: the machine has the memory for a batch of \<open>n\<close> requests of the load
    generator (the channel of \<open>n\<close> results and \<open>n\<close> goroutines).
\<close>

record state =
  clock :: nat
  cwd :: string
  serviceDirs :: "string list"
  currentDir :: string
  deferred :: "event list"
  trace :: "event list"

definition emit :: "event \<Rightarrow> state \<Rightarrow> state" where
  "emit e st = st\<lparr>trace := trace st @ [e]\<rparr>"

definition advance :: "nat \<Rightarrow> state \<Rightarrow> state" where
  "advance d st = st\<lparr>clock := clock st + d\<rparr>"

text \<open>\<^verbatim>\<open>time.Sleep\<close>.\<close>

definition sleep :: "nat \<Rightarrow> state \<Rightarrow> state" where
  "sleep d st = advance d (emit (EvSleep d) st)"

text \<open>The Service struct of \<^verbatim>\<open>Failure/main.go\<close> and \<^verbatim>\<open>StartupTime/main.go\<close>.\<close>

record Service =
  Name :: string
  HealthURL :: string
  ConsulKey :: string
  DockerName :: string

subsection \<open>Discovery client: isConsulServiceHealthy\<close>

text \<open>
  \<^verbatim>\<open>json.Unmarshal(body, &checks)\<close> with \<^verbatim>\<open>checks []map[string]interface{}\<close>. An array
  element must be an object or \<^verbatim>\<open>null\<close> (which gives a nil map, one that has no key);
  of a repeated key the last value stays. The top level must be an array or \<^verbatim>\<open>null\<close>
  (which leaves the slice nil, of length 0).
\<close>

fun decode_check :: "json \<Rightarrow> (string \<rightharpoonup> json) option" where
  "decode_check JNull = Some Map.empty"
| "decode_check (JObj kvs) = Some (map_of (rev kvs))"
| "decode_check _ = None"

fun decode_checks :: "json list \<Rightarrow> (string \<rightharpoonup> json) list option" where
  "decode_checks [] = Some []"
| "decode_checks (x # xs) =
     (case decode_check x of
        None \<Rightarrow> None
      | Some m \<Rightarrow> (case decode_checks xs of None \<Rightarrow> None | Some ms \<Rightarrow> Some (m # ms)))"

fun Unmarshal :: "payload \<Rightarrow> (string \<rightharpoonup> json) list option" where
  "Unmarshal NotJSON = None"
| "Unmarshal (Json JNull) = Some []"
| "Unmarshal (Json (JArr xs)) = decode_checks xs"
| "Unmarshal (Json _) = None"

text \<open>
  The loop over the checks: \<^verbatim>\<open>status, ok := check["Status"].(string)\<close>; a missing key or
  a value that is not a string gives \<^verbatim>\<open>ok == false\<close>.
\<close>

fun checks_passing :: "(string \<rightharpoonup> json) list \<Rightarrow> bool" where
  "checks_passing [] = True"
| "checks_passing (check # rest) =
     (case check ''Status'' of
        Some (JStr status) \<Rightarrow> (if status \<noteq> ''passing'' then False else checks_passing rest)
      | _ \<Rightarrow> False)"

text \<open>
  \<open>isConsulServiceHealthy\<close> uses \<^verbatim>\<open>http.Get\<close>, which sets no timeout: the value below is
  what the function returns when the GET returns.
\<close>

definition consul_checks_url :: "string \<Rightarrow> string" where
  "consul_checks_url consulKey = ''http://localhost:8500/v1/health/checks/'' @ consulKey"

definition isConsulServiceHealthy :: "env \<Rightarrow> string \<Rightarrow> state \<Rightarrow> bool \<times> state" where
  "isConsulServiceHealthy E consulKey st =
     (let url = consul_checks_url consulKey;
          (r, d) = HttpGet E (clock st) url;
          st' = advance d (emit (EvHttpGet url) st)
      in case r of
           ReqErr \<Rightarrow> (False, st')
         | Resp code body \<Rightarrow>
             if code \<noteq> 200 then (False, st')
             else (case body of
                     None \<Rightarrow> (False, st')
                   | Some p \<Rightarrow>
                       (case Unmarshal p of
                          None \<Rightarrow> (False, st')
                        | Some checks \<Rightarrow>
                            if length checks = 0 then (False, st')
                            else (checks_passing checks, st'))))"

subsection \<open>Health probe: isServiceHealthy\<close>

text \<open>
  The probe builds its own client with a timeout: \<^verbatim>\<open>1 * time.Second\<close> in
  \<^verbatim>\<open>Failure/main.go\<close>, \<^verbatim>\<open>5 * time.Second\<close> in \<^verbatim>\<open>StartupTime/main.go\<close>. The client
  timeout covers the request and the reading of the body: an exchange that would take
  the timeout or longer, or would never end, ends in an error when the timeout expires.
\<close>

definition healthTimeout_F :: nat where
  "healthTimeout_F = 1 * Second"

definition healthTimeout_S :: nat where
  "healthTimeout_S = 5 * Second"

definition client_Get :: "env \<Rightarrow> nat \<Rightarrow> nat \<Rightarrow> string \<Rightarrow> http_result \<times> nat" where
  "client_Get E timeout t url =
     (let (r, d) = HttpGet E t url
      in if NeverReturns E t url \<or> timeout \<le> d then (ReqErr, timeout) else (r, d))"

definition isServiceHealthy :: "env \<Rightarrow> nat \<Rightarrow> string \<Rightarrow> state \<Rightarrow> bool \<times> state" where
  "isServiceHealthy E timeout url st =
     (if \<not> ValidURL E url then (False, st)
      else
        let (r, d) = client_Get E timeout (clock st) url;
            st' = advance d (emit (EvHttpGet url) st)
        in case r of
             ReqErr \<Rightarrow> (False, st')
           | Resp code body \<Rightarrow>
               (case body of
                  None \<Rightarrow> (False, st')
                | Some p \<Rightarrow> (code = 200, st')))"

subsection \<open>Lifecycle commands\<close>

text \<open>
  \<^verbatim>\<open>cmd.Run()\<close> for a command with argument vector \<open>argv\<close> and \<^verbatim>\<open>Dir\<close> field \<open>dir\<close>
  (empty: the process working directory).
\<close>

definition run_cmd :: "env \<Rightarrow> string list \<Rightarrow> string \<Rightarrow> state \<Rightarrow> bool \<times> state" where
  "run_cmd E argv dir st =
     (let wd = (if dir = [] then cwd st else dir);
          (ok, d) = RunCmd E (clock st) wd argv
      in (ok, advance d (emit (EvRun argv dir (clock st) (clock st + d)) st)))"

definition compose_up :: "string list" where
  "compose_up = [''docker-compose'', ''up'', ''-d'']"

definition compose_down :: "string list" where
  "compose_down = [''docker-compose'', ''down'']"

definition compose_scale :: "string \<Rightarrow> string list" where
  "compose_scale name = [''docker-compose'', ''up'', ''-d'', ''--scale'', name @ ''=1'']"

text \<open>\<^verbatim>\<open>shutdownAllServices\<close>: \<^verbatim>\<open>docker-compose down\<close> with \<^verbatim>\<open>cmd.Dir = dir\<close>, failures only printed.\<close>

fun shutdownAllServices :: "env \<Rightarrow> string list \<Rightarrow> state \<Rightarrow> state" where
  "shutdownAllServices E [] st = st"
| "shutdownAllServices E (dir # dirs) st =
     shutdownAllServices E dirs (snd (run_cmd E compose_down dir st))"

text \<open>\<^verbatim>\<open>getSubdirectories\<close>: clears the package-level slice, then walks the tree.\<close>

definition getSubdirectories :: "env \<Rightarrow> string \<Rightarrow> state \<Rightarrow> bool \<times> state" where
  "getSubdirectories E rootdir st =
     (let (dirs, ok) = WalkDirs E rootdir
      in (ok, (emit (EvWalk rootdir) st)\<lparr>serviceDirs := dirs\<rparr>))"

text \<open>\<^verbatim>\<open>os.Chdir\<close>; the deferred change back to \<^verbatim>\<open>currentDir\<close> only warns when it fails.\<close>

definition chdir :: "env \<Rightarrow> string \<Rightarrow> state \<Rightarrow> bool \<times> state" where
  "chdir E dir st =
     (if ChdirOk E dir then (True, (emit (EvChdir dir) st)\<lparr>cwd := dir\<rparr>)
      else (False, emit (EvChdir dir) st))"

definition chdir_back :: "env \<Rightarrow> state \<Rightarrow> state" where
  "chdir_back E st = snd (chdir E (currentDir st) st)"

subsection \<open>Readiness monitor: the polling loop of measureDetailedStartupTime\<close>

text \<open>
  The loop is the same text in both harnesses (\<^verbatim>\<open>Failure/main.go\<close> lines 156-188,
  \<^verbatim>\<open>StartupTime/main.go\<close> lines 157-190) but for the names of the two time variables
  and the probe's timeout; it is modelled once, with the probe timeout as a parameter.

  \<^verbatim>\<open>time.After(2 * time.Minute)\<close> and \<^verbatim>\<open>time.NewTicker(1 * time.Second)\<close> are created at
  the same clock reading \<open>t0\<close>. The timeout channel can be received from at
  \<open>t0 + readyTimeout\<close> and ever after. The ticker sends at \<open>t0 + k * tickInterval\<close>
  (\<open>k \<ge> 1\<close>) and holds at most one tick: \<open>nextTick\<close> is the earliest reading at which a
  tick can be received; after a receive at reading \<open>now\<close> it is the first tick instant
  after \<open>now\<close>.
\<close>

definition readyTimeout :: nat where
  "readyTimeout = 2 * Minute"

definition tickInterval :: nat where
  "tickInterval = 1 * Second"

record poll =
  consulReady :: bool
  serviceHealthy :: bool
  consulTime :: real
  healthTime :: real
  nextTick :: nat
  iter :: nat

definition poll_init :: "nat \<Rightarrow> poll" where
  "poll_init t0 =
     \<lparr>consulReady = False, serviceHealthy = False, consulTime = 0, healthTime = 0,
      nextTick = t0 + tickInterval, iter = 0\<rparr>"

text \<open>\<^verbatim>\<open>select\<close> blocks until one of its two cases can proceed.\<close>

definition select_wait :: "nat \<Rightarrow> poll \<Rightarrow> state \<Rightarrow> state" where
  "select_wait t0 p st = st\<lparr>clock := max (clock st) (min (t0 + readyTimeout) (nextTick p))\<rparr>"

text \<open>
  Whether the \<^verbatim>\<open>select\<close>, at a state where a case can proceed, takes
  \<^verbatim>\<open>case <-timeout\<close>: it must be ready, and when the tick is ready too the choice is the
  runtime's (\<open>Pick\<close>).
\<close>

definition takes_timeout :: "env \<Rightarrow> nat \<Rightarrow> poll \<Rightarrow> state \<Rightarrow> bool" where
  "takes_timeout E t0 p st =
     (t0 + readyTimeout \<le> clock st \<and> (clock st < nextTick p \<or> Pick E t0 (iter p)))"

text \<open>
  Whether the tick taken at \<open>st\<close> calls the registry probe and the probe's GET never
  returns: then the body of the tick does not end.
\<close>

definition registry_hangs :: "env \<Rightarrow> Service \<Rightarrow> poll \<Rightarrow> state \<Rightarrow> bool" where
  "registry_hangs E service p st \<longleftrightarrow>
     \<not> consulReady p \<and> NeverReturns E (clock st) (consul_checks_url (ConsulKey service))"

text \<open>The body of \<^verbatim>\<open>case <-ticker.C\<close> up to the test of both flags.\<close>

definition poll_consul :: "env \<Rightarrow> Service \<Rightarrow> nat \<Rightarrow> poll \<times> state \<Rightarrow> poll \<times> state" where
  "poll_consul E service startTime ps =
     (let (p, st) = ps
      in if \<not> consulReady p then
           let (b, st') = isConsulServiceHealthy E (ConsulKey service) st;
               p' = p\<lparr>consulReady := b\<rparr>
           in (if consulReady p' then p'\<lparr>consulTime := Seconds (Since startTime (clock st'))\<rparr>
               else p', st')
         else (p, st))"

definition poll_health :: "env \<Rightarrow> nat \<Rightarrow> Service \<Rightarrow> nat \<Rightarrow> poll \<times> state \<Rightarrow> poll \<times> state" where
  "poll_health E timeout service startTime ps =
     (let (p, st) = ps
      in if \<not> serviceHealthy p then
           let (b, st') = isServiceHealthy E timeout (HealthURL service) st;
               p' = p\<lparr>serviceHealthy := b\<rparr>
           in (if serviceHealthy p' then p'\<lparr>healthTime := Seconds (Since startTime (clock st'))\<rparr>
               else p', st')
         else (p, st))"

definition on_tick :: "env \<Rightarrow> nat \<Rightarrow> Service \<Rightarrow> nat \<Rightarrow> nat \<Rightarrow> poll \<Rightarrow> state \<Rightarrow> poll \<times> state" where
  "on_tick E timeout service startTime t0 p st =
     poll_health E timeout service startTime
       (poll_consul E service startTime
          (p\<lparr>nextTick := t0 + tickInterval * ((clock st - t0) div tickInterval + 1),
             iter := Suc (iter p)\<rparr>, st))"

text \<open>
  The \<^verbatim>\<open>for { select { ... } }\<close> loop. It returns \<open>None\<close> for the timeout case and the
  loop variables for the success return. The loop has no bound of its own, so it is a
  partial function: the value \<open>None\<close> of the outer option is "does not return", which
  is also the value when a registry probe does not return.
\<close>

partial_function (option) waitReady ::
  "env \<Rightarrow> nat \<Rightarrow> Service \<Rightarrow> nat \<Rightarrow> nat \<Rightarrow> poll \<Rightarrow> state \<Rightarrow> (poll option \<times> state) option" where
  "waitReady E timeout service startTime t0 p st =
     (if takes_timeout E t0 p (select_wait t0 p st)
      then Some (None, select_wait t0 p st)
      else if registry_hangs E service p (select_wait t0 p st)
      then None
      else if consulReady (fst (on_tick E timeout service startTime t0 p (select_wait t0 p st)))
            \<and> serviceHealthy (fst (on_tick E timeout service startTime t0 p (select_wait t0 p st)))
      then Some (Some (fst (on_tick E timeout service startTime t0 p (select_wait t0 p st))),
                 snd (on_tick E timeout service startTime t0 p (select_wait t0 p st)))
      else waitReady E timeout service startTime t0
             (fst (on_tick E timeout service startTime t0 p (select_wait t0 p st)))
             (snd (on_tick E timeout service startTime t0 p (select_wait t0 p st))))"

subsection \<open>measureDetailedStartupTime\<close>

datatype measure_error =
    ChdirFailed
  | StartFailed
  | ScaleFailed
  | NotStartedInTime

text \<open>
  \<^verbatim>\<open>Failure/main.go\<close>: change into the service directory, sleep 5 seconds, run
  \<^verbatim>\<open>docker-compose up -d\<close>, read the start instant, run the scaled
  \<^verbatim>\<open>docker-compose up -d --scale name=1\<close>, then poll. The deferred function changes back
  to \<^verbatim>\<open>currentDir\<close> on every return after the first one.
\<close>

definition measureDetailedStartupTime_F ::
  "env \<Rightarrow> Service \<Rightarrow> string \<Rightarrow> state \<Rightarrow> ((measure_error + real \<times> real) \<times> state) option" where
  "measureDetailedStartupTime_F E service dir st =
     (let (ok, st1) = chdir E dir st
      in if \<not> ok then Some (Inl ChdirFailed, st1)
         else
           let st2 = sleep (5 * Second) st1;
               (ok_up, st3) = run_cmd E compose_up [] st2
           in if \<not> ok_up then Some (Inl StartFailed, chdir_back E st3)
              else
                let startTime = clock st3;
                    (ok_scale, st4) =
                      run_cmd E (compose_scale (DockerName service)) [] (emit (EvNow startTime) st3)
                in if \<not> ok_scale then Some (Inl ScaleFailed, chdir_back E st4)
                   else
                     do {
                       (r, st5) \<leftarrow> waitReady E healthTimeout_F service startTime (clock st4)
                                    (poll_init (clock st4)) st4;
                       Some (case r of
                               None \<Rightarrow> Inl NotStartedInTime
                             | Some p \<Rightarrow> Inr (consulTime p, healthTime p),
                             chdir_back E st5)
                     })"

text \<open>
  \<^verbatim>\<open>StartupTime/main.go\<close>: change into the service directory, run
  \<^verbatim>\<open>docker-compose down\<close> (a failure only warns), read the start instant, run
  \<^verbatim>\<open>docker-compose up -d\<close>, take \<^verbatim>\<open>containerStartTime\<close>, then poll; on success
  \<^verbatim>\<open>totalStartupTime\<close> is read last.
\<close>

record startup =
  totalStartupTime :: real
  consulCheckTime :: real
  healthCheckTime :: real
  consulPassed :: bool
  containerStartTime :: real

definition measureDetailedStartupTime_S ::
  "env \<Rightarrow> Service \<Rightarrow> string \<Rightarrow> state \<Rightarrow> ((measure_error + startup) \<times> state) option" where
  "measureDetailedStartupTime_S E service dir st =
     (let (ok, st1) = chdir E dir st
      in if \<not> ok then Some (Inl ChdirFailed, st1)
         else
           let (ok_down, st2) = run_cmd E compose_down [] st1;
               startTime = clock st2;
               (ok_up, st3) = run_cmd E compose_up [] (emit (EvNow startTime) st2)
           in if \<not> ok_up then Some (Inl StartFailed, chdir_back E st3)
              else
                let container = Seconds (Since startTime (clock st3))
                in do {
                     (r, st4) \<leftarrow> waitReady E healthTimeout_S service startTime (clock st3)
                                  (poll_init (clock st3)) st3;
                     Some (case r of
                             None \<Rightarrow> Inl NotStartedInTime
                           | Some p \<Rightarrow>
                               Inr \<lparr>totalStartupTime = Seconds (Since startTime (clock st4)),
                                    consulCheckTime = consulTime p,
                                    healthCheckTime = healthTime p,
                                    consulPassed = consulReady p,
                                    containerStartTime = container\<rparr>,
                           chdir_back E st4)
                   })"

subsection \<open>Run orchestrator: main\<close>

text \<open>\<^verbatim>\<open>strconv.Itoa\<close> and the \<^verbatim>\<open>%d\<close> verb: the decimal digits of an integer.\<close>

definition digit :: "nat \<Rightarrow> char" where
  "digit n = ''0123456789'' ! n"

function uitoa :: "nat \<Rightarrow> string" where
  "uitoa n = (if n < 10 then [digit n] else uitoa (n div 10) @ [digit (n mod 10)])"
  by pat_completeness auto
termination
  by (relation "measure (\<lambda>n. n)") auto

declare uitoa.simps [simp del]

definition Itoa :: "int \<Rightarrow> string" where
  "Itoa i = (if i < 0 then CHR ''-'' # uitoa (nat (- i)) else uitoa (nat i))"

definition FormatBool :: "bool \<Rightarrow> string" where
  "FormatBool b = (if b then ''true'' else ''false'')"

definition newline :: string where
  "newline = [CHR 0x0A]"

definition init_state :: "env \<Rightarrow> state" where
  "init_state E =
     \<lparr>clock = 0, cwd = StartDir E, serviceDirs = [], currentDir = [], deferred = [], trace = []\<rparr>"

text \<open>\<^verbatim>\<open>currentDir, err = os.Getwd()\<close>: an error is printed and the run goes on.\<close>

definition getwd :: "env \<Rightarrow> state \<Rightarrow> state" where
  "getwd E st = (emit EvGetwd st)\<lparr>currentDir := (if GetwdOk E then cwd st else [])\<rparr>"

definition consul_leader_url :: string where
  "consul_leader_url = ''http://localhost:8500/v1/status/leader''"

text \<open>The pre-flight query: \<^verbatim>\<open>err != nil || resp.StatusCode != http.StatusOK\<close> is fatal.\<close>

definition preflight :: "env \<Rightarrow> state \<Rightarrow> bool \<times> state" where
  "preflight E st =
     (let (r, d) = HttpGet E (clock st) consul_leader_url;
          st' = advance d (emit (EvHttpGet consul_leader_url) st)
      in case r of
           ReqErr \<Rightarrow> (False, st')
         | Resp code body \<Rightarrow> (if code \<noteq> 200 then (False, st') else (True, st')))"

text \<open>The Service value that main builds from a directory.\<close>

definition service_of :: "env \<Rightarrow> string \<Rightarrow> Service" where
  "service_of E dir =
     (let serviceName = ToLower E (Base E dir)
      in \<lparr>Name = serviceName,
          HealthURL = ''http://'' @ serviceName @ ''.localhost/health'',
          ConsulKey = serviceName,
          DockerName = serviceName\<rparr>)"

text \<open>
  Returning from main runs the deferred calls, last registered first, and the process
  exits with status 0. \<^verbatim>\<open>log.Fatalf\<close> exits with status 1 at once.
\<close>

definition return_main :: "state \<Rightarrow> state" where
  "return_main st = st\<lparr>trace := trace st @ deferred st @ [EvExit 0], deferred := []\<rparr>"

definition fatal :: "state \<Rightarrow> state" where
  "fatal st = emit (EvExit 1) st"

text \<open>
  \<^verbatim>\<open>os.Create\<close> of the trial's report; on success \<^verbatim>\<open>defer outputFile.Close()\<close> and
  \<^verbatim>\<open>defer writer.Flush()\<close> are registered and the header is written.
\<close>

definition open_report :: "env \<Rightarrow> string \<Rightarrow> string \<Rightarrow> state \<Rightarrow> bool \<times> state" where
  "open_report E file header st =
     (if \<not> CreateOk E file then (False, emit (EvCreate file) st)
      else (True, emit (EvWrite file header)
                    ((emit (EvCreate file) st)
                       \<lparr>deferred := EvFlush file # EvClose file # deferred st\<rparr>)))"

paragraph \<open>Failure/main.go\<close>

definition report_F :: "nat \<Rightarrow> string" where
  "report_F i = ''failure_revocery_'' @ Itoa (int i) @ ''.csv''"

definition header_F :: string where
  "header_F = ''ServiceName,RecoveryTime(s),FailureDectectionTime(s)'' @ newline"

definition row_F :: "env \<Rightarrow> string \<Rightarrow> real \<Rightarrow> real \<Rightarrow> string" where
  "row_F E name failureDectectionTime recoveryTime =
     name @ '','' @ FormatFloat2 E failureDectectionTime @ '','' @ FormatFloat2 E recoveryTime
       @ newline"

text \<open>The loop over \<^verbatim>\<open>serviceDirs\<close> of one trial: an error skips the service.\<close>

fun services_F :: "env \<Rightarrow> string \<Rightarrow> string list \<Rightarrow> state \<Rightarrow> state option" where
  "services_F E file [] st = Some st"
| "services_F E file (dir # dirs) st =
     do {
       (r, st1) \<leftarrow> measureDetailedStartupTime_F E (service_of E dir) dir st;
       services_F E file dirs
         (case r of
            Inl e \<Rightarrow> st1
          | Inr (failureDectectionTime, recoveryTime) \<Rightarrow>
              emit (EvWrite file
                      (row_F E (Name (service_of E dir)) failureDectectionTime recoveryTime)) st1)
     }"

text \<open>
  \<^verbatim>\<open>for i := 1; i <= 5; i++\<close>. When the report cannot be created main returns: the value
  is the state at that return.
\<close>

function trials_F :: "env \<Rightarrow> nat \<Rightarrow> state \<Rightarrow> state option" where
  "trials_F E i st =
     (if i \<le> 5 then
        (let (ok, st1) = open_report E (report_F i) header_F st
         in if \<not> ok then Some st1
            else
              do {
                st2 \<leftarrow> services_F E (report_F i) (serviceDirs st1) st1;
                trials_F E (Suc i)
                  (let st3 = shutdownAllServices E (serviceDirs st2) st2
                   in if i < 5 then sleep (15 * Second) st3 else st3)
              })
      else Some st)"
  by pat_completeness auto
termination
  by (relation "measure (\<lambda>(E, i, st). 6 - i)") auto

declare trials_F.simps [simp del]

definition main_F :: "env \<Rightarrow> state option" where
  "main_F E =
     (let st1 = getwd E (init_state E);
          servicesRoot = Join E [currentDir st1, ''..'', ''..'', ''services''];
          (ok, st2) = preflight E st1
      in if \<not> ok then Some (fatal st2)
         else
           let (ok_walk, st3) = getSubdirectories E servicesRoot st2
           in if \<not> ok_walk then Some (return_main st3)
              else do { st4 \<leftarrow> trials_F E 1 st3; Some (return_main st4) })"

paragraph \<open>StartupTime/main.go\<close>

definition report_S :: "nat \<Rightarrow> string" where
  "report_S i = ''startup_times_run_'' @ Itoa (int i) @ ''.csv''"

definition header_S :: string where
  "header_S =
     ''ServiceName,TotalStartupTime(s),ConsulCheckTime(s),HealthCheckTime(s),ConsulChecksPassed,ContainerStartTime(s)''
       @ newline"

definition row_S :: "env \<Rightarrow> string \<Rightarrow> startup \<Rightarrow> string" where
  "row_S E name r =
     name @ '','' @ FormatFloat2 E (totalStartupTime r) @ '','' @ FormatFloat2 E (consulCheckTime r)
       @ '','' @ FormatFloat2 E (healthCheckTime r) @ '','' @ FormatBool (consulPassed r)
       @ '','' @ FormatFloat2 E (containerStartTime r) @ newline"

fun services_S :: "env \<Rightarrow> string \<Rightarrow> string list \<Rightarrow> state \<Rightarrow> state option" where
  "services_S E file [] st = Some st"
| "services_S E file (dir # dirs) st =
     do {
       (r, st1) \<leftarrow> measureDetailedStartupTime_S E (service_of E dir) dir st;
       services_S E file dirs
         (case r of
            Inl e \<Rightarrow> st1
          | Inr res \<Rightarrow> emit (EvWrite file (row_S E (Name (service_of E dir)) res)) st1)
     }"

function trials_S :: "env \<Rightarrow> nat \<Rightarrow> state \<Rightarrow> state option" where
  "trials_S E i st =
     (if i \<le> 5 then
        (let (ok, st1) = open_report E (report_S i) header_S st
         in if \<not> ok then Some st1
            else
              do {
                st2 \<leftarrow> services_S E (report_S i) (serviceDirs st1) st1;
                trials_S E (Suc i)
                  (let st3 = shutdownAllServices E (serviceDirs st2) st2
                   in if i < 5 then sleep (30 * Second) st3 else st3)
              })
      else Some st)"
  by pat_completeness auto
termination
  by (relation "measure (\<lambda>(E, i, st). 6 - i)") auto

declare trials_S.simps [simp del]

definition main_S :: "env \<Rightarrow> state option" where
  "main_S E =
     (let st1 = getwd E (init_state E);
          servicesRoot = Join E [currentDir st1, ''..'', ''..'', ''services''];
          (ok, st2) = preflight E st1
      in if \<not> ok then Some (fatal st2)
         else
           let (ok_walk, st3) = getSubdirectories E servicesRoot st2
           in if \<not> ok_walk then Some (return_main st3)
              else do { st4 \<leftarrow> trials_S E 1 st3; Some (return_main st4) })"

subsection \<open>Load generator: testServices of Latency/main.go\<close>

text \<open>
  The file holds two versions of the program; \<^verbatim>\<open>testServices\<close> is the same text in both.
\<close>

record Service_L =
  Name_L :: string
  URL :: string

record TestResult =
  ServiceName :: string
  RequestTime :: nat
  Latency :: int
  Success :: bool
  ConcurrentGroup :: int

text \<open>
  The body of one goroutine, \<^verbatim>\<open>go func(s Service, group int)\<close>: the \<open>k\<close>-th goroutine
  of the batch reads its start instant \<open>start\<close>, issues the GET with a client whose timeout
  is 10 seconds and builds its result. An error and a status other than 200 both leave
  \<^verbatim>\<open>success\<close> false; the result is sent in every case.
\<close>

definition requestTimeout :: nat where
  "requestTimeout = 10 * Second"

definition goroutine :: "env \<Rightarrow> nat \<Rightarrow> Service_L \<Rightarrow> int \<Rightarrow> TestResult" where
  "goroutine E start s grp =
     (let (r, d) = client_Get E requestTimeout start (URL s);
          latency = Since start (start + d);
          success = (case r of ReqErr \<Rightarrow> False | Resp code body \<Rightarrow> code = 200)
      in \<lparr>ServiceName = Name_L s, RequestTime = start, Latency = latency,
          Success = success, ConcurrentGroup = grp\<rparr>)"

text \<open>
  The goroutines that the two nested loops start, in the order of the \<^verbatim>\<open>go\<close> statements:
  for each service, \<^verbatim>\<open>for i := 0; i < concurrency; i++\<close>, each with the arguments
  \<^verbatim>\<open>(service, concurrency)\<close>.
\<close>

definition spawned :: "Service_L list \<Rightarrow> int \<Rightarrow> (Service_L \<times> int) list" where
  "spawned services concurrency =
     concat (map (\<lambda>service. replicate (nat concurrency) (service, concurrency)) services)"

text \<open>
  The goroutines run concurrently and send on the channel in the order in which they
  finish. That order is the scheduler's: \<open>complete sched xs\<close> takes, for each choice
  \<open>c\<close> of \<open>sched\<close>, the pending goroutine number \<open>c mod n\<close> of the \<open>n\<close> still pending;
  when the choices run out the rest finish in the order they were started. Every order
  of completion is \<open>complete sched xs\<close> for some \<open>sched\<close> (lemma \<open>complete_any_order\<close>).
\<close>

fun complete :: "nat list \<Rightarrow> 'a list \<Rightarrow> 'a list" where
  "complete cs [] = []"
| "complete [] xs = xs"
| "complete (c # cs) (x # xs) =
     (let i = c mod length (x # xs)
      in (x # xs) ! i # complete cs (take i (x # xs) @ drop (Suc i) (x # xs)))"

text \<open>Go's \<^verbatim>\<open>int\<close> is 64 bits wide: the value of a product after wrap-around.\<close>

definition int64 :: "int \<Rightarrow> int" where
  "int64 i = (i + 2 ^ 63) mod 2 ^ 64 - 2 ^ 63"

text \<open>
  \<^verbatim>\<open>make(chan T, size)\<close> is \<^verbatim>\<open>runtime.makechan\<close>, which panics with
  \<^verbatim>\<open>makechan: size out of range\<close> when \<^verbatim>\<open>size\<close> is negative or the buffer, the size of
  \<^verbatim>\<open>T\<close> times \<^verbatim>\<open>size\<close>, is more than \<^verbatim>\<open>maxAlloc - hchanSize\<close> bytes. On a 64-bit
  Linux (amd64) \<^verbatim>\<open>maxAlloc\<close> is \<open>2^48\<close> and the channel header takes 96 bytes; a
  \<^verbatim>\<open>TestResult\<close> takes 64 bytes (a string header of 16, a \<^verbatim>\<open>time.Time\<close> of 24, a
  \<^verbatim>\<open>Duration\<close> of 8, a \<^verbatim>\<open>bool\<close> padded to 8 and an \<^verbatim>\<open>int\<close> of 8). So the \<^verbatim>\<open>make\<close>
  of \<open>testServices\<close> panics from a capacity of \<open>2^42 - 1\<close> on.
\<close>

definition maxAlloc :: int where
  "maxAlloc = 2 ^ 48"

definition hchanSize :: int where
  "hchanSize = 96"

definition sizeof_TestResult :: int where
  "sizeof_TestResult = 64"

definition makechan_panics :: "int \<Rightarrow> bool" where
  "makechan_panics n \<longleftrightarrow> n < 0 \<or> maxAlloc - hchanSize < sizeof_TestResult * n"

text \<open>
  How a call ends: \<open>Panic\<close> (the \<^verbatim>\<open>make\<close> of the channel panics), \<open>OutOfMemory\<close> (the
  runtime ends the process with \<^verbatim>\<open>fatal error: runtime: out of memory\<close>: the machine
  cannot hold the channel's buffer, or the goroutines), \<open>Hang\<close> (\<^verbatim>\<open>wg.Wait()\<close> never
  returns: more goroutines send than the channel holds, and nothing receives before the
  wait is over), or \<open>Done\<close> with the value.
\<close>

datatype 'a run = Panic | OutOfMemory | Hang | Done 'a

text \<open>The results in the channel when \<^verbatim>\<open>wg.Wait()\<close> returns, in channel order.\<close>

definition batch_results ::
  "env \<Rightarrow> (nat \<Rightarrow> nat) \<Rightarrow> nat list \<Rightarrow> Service_L list \<Rightarrow> int \<Rightarrow> TestResult list" where
  "batch_results E starts sched services concurrency =
     complete sched
       (map (\<lambda>(k, (s, grp)). goroutine E (starts k) s grp)
          (enumerate 0 (spawned services concurrency)))"

text \<open>One \<^verbatim>\<open>csvWriter.Write\<close>: the five fields of a row.\<close>

definition csv_record :: "env \<Rightarrow> (nat \<Rightarrow> string) \<Rightarrow> TestResult \<Rightarrow> string list" where
  "csv_record E FormatRFC3339 result =
     [ServiceName result,
      FormatRFC3339 (RequestTime result),
      FormatFloat2 E (Seconds (Latency result) * 1000),
      FormatBool (Success result),
      Itoa (ConcurrentGroup result)]"

text \<open>
  \<open>testServices\<close>: \<open>starts k\<close> is the clock reading at which the \<open>k\<close>-th goroutine reads
  \<^verbatim>\<open>time.Now()\<close>, \<open>FormatRFC3339\<close> is \<^verbatim>\<open>Time.Format(time.RFC3339)\<close>, \<open>rows\<close> are the rows
  the CSV writer already holds; the value is the rows it holds at the return (the code
  ignores the error value of \<^verbatim>\<open>csvWriter.Write\<close>; errors of the file below the writer
  are not modelled).
\<close>

definition testServices ::
  "env \<Rightarrow> (nat \<Rightarrow> nat) \<Rightarrow> (nat \<Rightarrow> string) \<Rightarrow> nat list \<Rightarrow> Service_L list \<Rightarrow> int
     \<Rightarrow> string list list \<Rightarrow> string list list run" where
  "testServices E starts FormatRFC3339 sched services concurrency rows =
     (let capacity = int64 (concurrency * int (length services))
      in if makechan_panics capacity then Panic
         else if \<not> MemoryFor E (nat capacity) then OutOfMemory
         else
           let results = batch_results E starts sched services concurrency
           in if \<not> MemoryFor E (length results) then OutOfMemory
              else if capacity < int (length results) then Hang
              else Done (rows @ map (csv_record E FormatRFC3339) results))"

text \<open>
  The row that the report is to hold for one request, read off the world and not off the
  code: the request to endpoint \<open>s\<close> issued at \<open>start\<close> in a batch at stress level \<open>N\<close>
  is answered when the world's reply comes within the 10-second timeout; its latency is
  the time to the reply, or the timeout when there is none; it is a success when it is
  answered with status 200.
\<close>

definition request_row :: "env \<Rightarrow> (nat \<Rightarrow> string) \<Rightarrow> nat \<Rightarrow> Service_L \<Rightarrow> int \<Rightarrow> string list" where
  "request_row E FormatRFC3339 start s N =
     (let answered = (\<not> NeverReturns E start (URL s)
                       \<and> snd (HttpGet E start (URL s)) < requestTimeout);
          elapsed = (if answered then snd (HttpGet E start (URL s)) else requestTimeout);
          ok = (case fst (HttpGet E start (URL s)) of
                  ReqErr \<Rightarrow> False
                | Resp code body \<Rightarrow> answered \<and> code = 200)
      in [Name_L s,
          FormatRFC3339 start,
          FormatFloat2 E (Seconds (int elapsed) * 1000),
          (if ok then ''true'' else ''false''),
          Itoa N])"

text \<open>The rows for the requests of a batch, in the order in which the requests are issued.\<close>

definition request_rows ::
  "env \<Rightarrow> (nat \<Rightarrow> nat) \<Rightarrow> (nat \<Rightarrow> string) \<Rightarrow> Service_L list \<Rightarrow> int \<Rightarrow> string list list" where
  "request_rows E starts FormatRFC3339 services N =
     map (\<lambda>(k, s). request_row E FormatRFC3339 (starts k) s N)
       (enumerate 0 (concat (map (replicate (nat N)) services)))"

subsection \<open>Example worlds\<close>

text \<open>
  A world in which the registry reports one passing check for every key, every health
  endpoint answers 200 after 20 milliseconds, every command succeeds after 3 seconds,
  the only service directory is \<^verbatim>\<open>/repo/services/Weather\<close> and there is memory for
  100000 concurrent requests.
\<close>

definition passing_body :: payload where
  "passing_body = Json (JArr [JObj [(''Status'', JStr ''passing'')]])"

definition E_up :: env where
  "E_up =
     \<lparr>StartDir = ''/repo/Testing/Failure'',
      GetwdOk = True,
      Join = (\<lambda>parts. ''/repo/services''),
      Base = (\<lambda>path. ''Weather''),
      ToLower = (\<lambda>name. ''weather''),
      FormatFloat2 = (\<lambda>x. ''0.00''),
      HttpGet = (\<lambda>t url. (Resp 200 (Some passing_body), 20000000)),
      NeverReturns = (\<lambda>t url. False),
      ValidURL = (\<lambda>url. True),
      WalkDirs = (\<lambda>rootdir. ([''/repo/services/Weather''], True)),
      ChdirOk = (\<lambda>dir. True),
      RunCmd = (\<lambda>t dir argv. (True, 3000000000)),
      CreateOk = (\<lambda>file. True),
      Pick = (\<lambda>t0 i. True),
      MemoryFor = (\<lambda>n. n \<le> 100000)\<rparr>"

definition st_up :: state where
  "st_up =
     \<lparr>clock = 0, cwd = ''/repo/Testing/Failure'', serviceDirs = [''/repo/services/Weather''],
      currentDir = ''/repo/Testing/Failure'', deferred = [], trace = []\<rparr>"

text \<open>The three endpoints that main of \<^verbatim>\<open>Latency/main.go\<close> tests.\<close>

definition services_L :: "Service_L list" where
  "services_L =
     [\<lparr>Name_L = ''Weather Service'', URL = ''http://weather.localhost/health''\<rparr>,
      \<lparr>Name_L = ''Parking Service'', URL = ''http://parking.localhost/health''\<rparr>,
      \<lparr>Name_L = ''Traffic Light Service'', URL = ''http://traffic.localhost/health''\<rparr>]"

subsection \<open>Predicates used in the statements\<close>

definition is_get :: "event \<Rightarrow> bool" where
  "is_get e = (case e of EvHttpGet url \<Rightarrow> True | _ \<Rightarrow> False)"

text \<open>
  \<open>only_gets st st'\<close>: from \<open>st\<close> to \<open>st'\<close> the program has issued HTTP GETs and nothing
  else; the clock has not gone back and the working directory, the package-level
  variables and the deferred calls are the same.
\<close>

definition only_gets :: "state \<Rightarrow> state \<Rightarrow> bool" where
  "only_gets st st' \<longleftrightarrow>
     (\<exists>gets. trace st' = trace st @ gets \<and> list_all is_get gets)
     \<and> clock st \<le> clock st' \<and> cwd st' = cwd st \<and> currentDir st' = currentDir st
     \<and> serviceDirs st' = serviceDirs st \<and> deferred st' = deferred st"

text \<open>
  The state in which a tick taken at \<open>st\<close> calls the health probe: the registry is
  polled first, and only while its flag is false.
\<close>

definition after_registry :: "env \<Rightarrow> Service \<Rightarrow> poll \<Rightarrow> state \<Rightarrow> state" where
  "after_registry E service p st =
     (if consulReady p then st else snd (isConsulServiceHealthy E (ConsulKey service) st))"

text \<open>
  \<open>times_ok startTime p st\<close>: the two recorded times of the polling loop are elapsed times
  since \<open>startTime\<close> that lie between 0 and the time elapsed at \<open>st\<close>.
\<close>

definition times_ok :: "nat \<Rightarrow> poll \<Rightarrow> state \<Rightarrow> bool" where
  "times_ok startTime p st \<longleftrightarrow>
     startTime \<le> clock st
     \<and> 0 \<le> consulTime p \<and> consulTime p \<le> Seconds (Since startTime (clock st))
     \<and> 0 \<le> healthTime p \<and> healthTime p \<le> Seconds (Since startTime (clock st))"

definition weather_dir :: string where
  "weather_dir = ''/repo/services/Weather''"

definition weather :: Service where
  "weather =
     \<lparr>Name = ''weather'', HealthURL = ''http://weather.localhost/health'',
      ConsulKey = ''weather'', DockerName = ''weather''\<rparr>"

text \<open>Reading a trace: the commands run, with their \<^verbatim>\<open>Dir\<close>, and the directory changes.\<close>

fun commands :: "event list \<Rightarrow> (string list \<times> string) list" where
  "commands [] = []"
| "commands (EvRun argv dir b e # evs) = (argv, dir) # commands evs"
| "commands (ev # evs) = commands evs"

fun chdirs :: "event list \<Rightarrow> string list" where
  "chdirs [] = []"
| "chdirs (EvChdir dir # evs) = dir # chdirs evs"
| "chdirs (ev # evs) = chdirs evs"

text \<open>The start instants read, and the instants at which a scaled \<^verbatim>\<open>up\<close> returned.\<close>

fun start_instants :: "event list \<Rightarrow> nat list" where
  "start_instants [] = []"
| "start_instants (EvNow t # evs) = t # start_instants evs"
| "start_instants (ev # evs) = start_instants evs"

fun scale_completions :: "event list \<Rightarrow> nat list" where
  "scale_completions [] = []"
| "scale_completions (EvRun argv dir b e # evs) =
     (if ''--scale'' \<in> set argv then e # scale_completions evs else scale_completions evs)"
| "scale_completions (ev # evs) = scale_completions evs"

text \<open>
  The design that passes the working directory on each command and leaves the process
  working directory alone, as a predicate on a trace.
\<close>

definition dir_on_every_command :: "event list \<Rightarrow> bool" where
  "dir_on_every_command evs \<longleftrightarrow> list_all (\<lambda>(argv, dir). dir \<noteq> []) (commands evs)"

definition no_chdir :: "event list \<Rightarrow> bool" where
  "no_chdir evs \<longleftrightarrow> chdirs evs = []"

text \<open>The events that a call adds to the trace.\<close>

definition added :: "state \<Rightarrow> state \<Rightarrow> event list" where
  "added st st' = drop (length (trace st)) (trace st')"

text \<open>
  Variants of the example world: the registry cannot be reached; the registry answers
  503; the first report of either harness cannot be created; every endpoint takes a
  minute to answer.
\<close>

definition E_down :: env where
  "E_down = E_up\<lparr>HttpGet := (\<lambda>t url. (ReqErr, 1000000))\<rparr>"

definition E_503 :: env where
  "E_503 = E_up\<lparr>HttpGet := (\<lambda>t url. (Resp 503 (Some NotJSON), 1000000))\<rparr>"



text \<open>
  A world in which the process can change into the service directory and cannot change
  back to the directory it started in; everything else is as in \<open>E_up\<close>.
\<close>

definition E_noback :: env where
  "E_noback = E_up\<lparr>ChdirOk := (\<lambda>dir. dir = ''/repo/services/Weather'')\<rparr>"

definition E_hung :: env where
  "E_hung = E_up\<lparr>HttpGet := (\<lambda>t url. (Resp 200 (Some passing_body), 60000000000))\<rparr>"

text \<open>
  A world in which the registry accepts the connection of a checks query for
  \<^verbatim>\<open>weather\<close> and never answers it; everything else is as in \<open>E_up\<close>.
\<close>

definition E_mute :: env where
  "E_mute = E_up\<lparr>NeverReturns := (\<lambda>t url. url = consul_checks_url ''weather'')\<rparr>"

text \<open>
  "The completion of the scaled up starts the clock", as a predicate on a trace: the start
  instants read are the instants at which the scaled \<^verbatim>\<open>up\<close> commands returned.
\<close>

definition clock_starts_at_scale_completion :: "event list \<Rightarrow> bool" where
  "clock_starts_at_scale_completion evs \<longleftrightarrow> start_instants evs = scale_completions evs"

text \<open>
  A world in which the health endpoint answers 503 until 125 seconds on the clock and from
  then on answers 200 after 4 seconds (inside the 5-second timeout of the startup-time
  harness); everything else is as in \<open>E_up\<close>.
\<close>

definition E_late :: env where
  "E_late =
     E_up\<lparr>HttpGet :=
            (\<lambda>t url. if url = ''http://weather.localhost/health''
                     then (if t < 125000000000 then (Resp 503 (Some NotJSON), 20000000)
                           else (Resp 200 (Some passing_body), 4000000000))
                     else (Resp 200 (Some passing_body), 20000000))\<rparr>"

text \<open>
  The loop variables of the startup-time harness in \<open>E_late\<close> when \<open>i\<close> ticks have been
  taken (\<open>i \<ge> 1\<close>): the registry has passed at the first tick, the health probe has not.
\<close>

definition late_poll :: "nat \<Rightarrow> poll" where
  "late_poll i =
     \<lparr>consulReady = True, serviceHealthy = False, consulTime = 201 / 50, healthTime = 0,
      nextTick = 6000000000 + (i + 1) * tickInterval, iter = i\<rparr>"

section \<open>Properties\<close>

subsection \<open>Discovery client\<close>

lemma decode_checks_passing:
  "(case decode_checks xs of None \<Rightarrow> False | Some ms \<Rightarrow> checks_passing ms) \<longleftrightarrow>
   (\<forall>x\<in>set xs. \<exists>kvs. x = JObj kvs \<and> map_of (rev kvs) ''Status'' = Some (JStr ''passing''))"
proof (induction xs)
  case Nil
  show ?case by simp
next
  case (Cons x xs)
  then show ?case
    by (cases x) (auto split: option.splits json.splits)
qed

lemma decode_checks_Nil: "decode_checks xs = Some [] \<longleftrightarrow> xs = []"
  by (cases xs) (auto split: option.splits)

lemma Unmarshal_array:
  "Unmarshal p = Some ms \<Longrightarrow> ms \<noteq> [] \<Longrightarrow> \<exists>xs. p = Json (JArr xs) \<and> decode_checks xs = Some ms"
  by (cases p rule: Unmarshal.cases) auto

text \<open>
  Claim C3. For every service key, \<open>isConsulServiceHealthy\<close> returns true if and only if
  the GET succeeds with status 200, the body is read and parses as a JSON list, the list
  is not empty and every entry is an object whose \<open>Status\<close> field is the string
  \<open>passing\<close>. Every other reply (a request error, another status, a body that cannot be
  read, a payload that is not such a list, an empty list, a status that is missing or
  not a string) gives false. The function is total with a boolean value: no branch
  panics.
\<close>

theorem isConsulServiceHealthy_iff:
  "fst (isConsulServiceHealthy E consulKey st) \<longleftrightarrow>
   (\<exists>xs. fst (HttpGet E (clock st) (consul_checks_url consulKey))
            = Resp 200 (Some (Json (JArr xs)))
       \<and> xs \<noteq> []
       \<and> (\<forall>x\<in>set xs. \<exists>kvs. x = JObj kvs
                              \<and> map_of (rev kvs) ''Status'' = Some (JStr ''passing'')))"
  (is "?L \<longleftrightarrow> ?R")
proof (cases "HttpGet E (clock st) (consul_checks_url consulKey)")
  case (Pair r d)
  show ?thesis
  proof
    assume L: ?L
    from L Pair obtain code p ms where r: "r = Resp code (Some p)" and c: "code = 200"
      and u: "Unmarshal p = Some ms" and ne: "ms \<noteq> []" and ok: "checks_passing ms"
      by (auto simp: isConsulServiceHealthy_def Let_def
               split: http_result.splits option.splits if_splits)
    from Unmarshal_array [OF u ne] obtain xs where p: "p = Json (JArr xs)"
      and d: "decode_checks xs = Some ms" by blast
    from d ne have "xs \<noteq> []" by auto
    moreover from d ok decode_checks_passing [of xs]
    have "\<forall>x\<in>set xs. \<exists>kvs. x = JObj kvs \<and> map_of (rev kvs) ''Status'' = Some (JStr ''passing'')"
      by simp
    ultimately show ?R using Pair r c p by auto
  next
    assume ?R
    then obtain xs where g: "r = Resp 200 (Some (Json (JArr xs)))" and ne: "xs \<noteq> []"
      and all: "\<forall>x\<in>set xs. \<exists>kvs. x = JObj kvs
                   \<and> map_of (rev kvs) ''Status'' = Some (JStr ''passing'')"
      using Pair by auto
    from all decode_checks_passing [of xs] obtain ms where d: "decode_checks xs = Some ms"
      and ok: "checks_passing ms" by (auto split: option.splits)
    from d ne decode_checks_Nil [of xs] have "ms \<noteq> []" by auto
    with Pair g d ok show ?L
      by (simp add: isConsulServiceHealthy_def Let_def)
  qed
qed

theorem isConsulServiceHealthy_iff_witness:
  "fst (isConsulServiceHealthy E_up ''weather'' st_up)
   \<and> fst (HttpGet E_up (clock st_up) (consul_checks_url ''weather''))
       = Resp 200 (Some (Json (JArr [JObj [(''Status'', JStr ''passing'')]])))
   \<and> [JObj [(''Status'', JStr ''passing'')]] \<noteq> []
   \<and> list_all (\<lambda>x. \<exists>kvs. x = JObj kvs \<and> map_of (rev kvs) ''Status'' = Some (JStr ''passing''))
        [JObj [(''Status'', JStr ''passing'')]]"
  using isConsulServiceHealthy_iff [of E_up "''weather''" st_up]
  by (simp add: E_up_def st_up_def passing_body_def)

subsection \<open>Load generator\<close>

lemma length_complete: "length (complete cs xs) = length xs"
proof (induction cs xs rule: complete.induct)
  case (3 c cs x xs)
  define i where "i = c mod length (x # xs)"
  have i: "i < length (x # xs)" by (simp add: i_def)
  have "length (take i (x # xs) @ drop (Suc i) (x # xs)) = length xs"
    using i by (simp add: min_def)
  with 3 [OF i_def] show ?case
    unfolding complete.simps Let_def i_def [symmetric] by simp
qed simp_all

lemma set_complete: "set (complete cs xs) = set xs"
proof (induction cs xs rule: complete.induct)
  case (3 c cs x xs)
  define i where "i = c mod length (x # xs)"
  have i: "i < length (x # xs)" by (simp add: i_def)
  have "set (x # xs) = set (take i (x # xs) @ (x # xs) ! i # drop (Suc i) (x # xs))"
    using id_take_nth_drop [OF i] by simp
  with 3 [OF i_def] show ?case
    unfolding complete.simps Let_def i_def [symmetric] by auto
qed simp_all

lemma complete_any_order:
  assumes "mset ys = mset xs"
  shows "\<exists>sched. complete sched xs = ys"
  using assms
proof (induction ys arbitrary: xs)
  case Nil
  then have "xs = []" by simp
  then show ?case by (intro exI [of _ "[]"]) simp
next
  case (Cons y ys)
  from Cons.prems have "y \<in> set xs"
    by (metis list.set_intros(1) mset_eq_setD)
  then obtain i where i: "i < length xs" and y: "xs ! i = y"
    by (auto simp: in_set_conv_nth)
  from i obtain x xs' where xs: "xs = x # xs'" by (cases xs) auto
  let ?rest = "take i xs @ drop (Suc i) xs"
  have "mset xs = mset ?rest + {#y#}"
    using id_take_nth_drop [OF i] y
    by (metis add_mset_add_single mset.simps(2) mset_append union_mset_add_mset_right)
  with Cons.prems have "mset ys = mset ?rest" by simp
  from Cons.IH [OF this] obtain sched where s: "complete sched ?rest = ys" by blast
  have "complete (i # sched) xs = y # ys"
    using i y s by (simp add: xs Let_def)
  then show ?case by blast
qed

lemma length_spawned: "length (spawned services N) = nat N * length services"
  by (induction services) (simp_all add: spawned_def)

lemma set_spawned: "(s, g) \<in> set (spawned services N) \<Longrightarrow> g = N"
  by (auto simp: spawned_def)

lemma length_batch_results:
  "length (batch_results E starts sched services N) = nat N * length services"
  by (simp add: batch_results_def length_complete length_spawned)

lemma int64_id: "0 \<le> i \<Longrightarrow> i < 2 ^ 63 \<Longrightarrow> int64 i = i"
  by (simp add: int64_def)

lemma testServices_Done:
  assumes "0 \<le> N" and "N * int (length services) \<le> 2 ^ 42 - 2"
    and "MemoryFor E (nat N * length services)"
  shows "testServices E starts FormatRFC3339 sched services N rows
       = Done (rows @ map (csv_record E FormatRFC3339)
                        (batch_results E starts sched services N))"
proof -
  have pos: "0 \<le> N * int (length services)"
    using assms(1) by (intro mult_nonneg_nonneg) simp_all
  then have cap: "int64 (N * int (length services)) = N * int (length services)"
    using assms(2) by (intro int64_id) simp_all
  have len: "int (length (batch_results E starts sched services N)) = N * int (length services)"
    using assms(1) by (simp add: length_batch_results)
  have n: "nat (N * int (length services)) = nat N * length services"
    using assms(1) by (simp add: nat_mult_distrib)
  have mk: "\<not> makechan_panics (N * int (length services))"
    using pos assms(2)
    by (simp add: makechan_panics_def maxAlloc_def hchanSize_def sizeof_TestResult_def)
  show ?thesis
    using assms(1,3) len by (simp add: testServices_def Let_def cap mk n length_batch_results)
qed

lemma testServices_Panic:
  assumes "0 \<le> N" and "2 ^ 42 - 1 \<le> N * int (length services)"
    and "N * int (length services) < 2 ^ 63"
  shows "testServices E starts FormatRFC3339 sched services N rows = Panic"
proof -
  have "0 \<le> N * int (length services)"
    using assms(1) by (intro mult_nonneg_nonneg) simp_all
  then have cap: "int64 (N * int (length services)) = N * int (length services)"
    using assms(3) by (intro int64_id)
  have mk: "makechan_panics (N * int (length services))"
    using assms(2)
    by (simp add: makechan_panics_def maxAlloc_def hchanSize_def sizeof_TestResult_def)
  show ?thesis
    by (simp add: testServices_def Let_def cap mk)
qed

lemma mset_complete: "mset (complete cs xs) = mset xs"
proof (induction cs xs rule: complete.induct)
  case (3 c cs x xs)
  define i where "i = c mod length (x # xs)"
  have i: "i < length (x # xs)" by (simp add: i_def)
  have "mset (x # xs) = mset (take i (x # xs) @ (x # xs) ! i # drop (Suc i) (x # xs))"
    using id_take_nth_drop [OF i] by simp
  with 3 [OF i_def] show ?case
    unfolding complete.simps Let_def i_def [symmetric] by simp
qed simp_all

lemma complete_map: "complete cs (map f xs) = map f (complete cs xs)"
proof (induction cs xs rule: complete.induct)
  case (3 c cs x xs)
  define i where "i = c mod length (x # xs)"
  have i: "i < length (x # xs)" by (simp add: i_def)
  have l: "c mod length (map f (x # xs)) = i" by (simp add: i_def)
  have r: "take i (map f (x # xs)) @ drop (Suc i) (map f (x # xs))
         = map f (take i (x # xs) @ drop (Suc i) (x # xs))"
    by (simp only: take_map drop_map map_append)
  have n: "map f (x # xs) ! i = f ((x # xs) ! i)"
    using i by (intro nth_map)
  have "complete (c # cs) (map f (x # xs))
      = map f (x # xs) ! i # complete cs (take i (map f (x # xs)) @ drop (Suc i) (map f (x # xs)))"
    using l by (simp add: Let_def)
  also have "\<dots> = f ((x # xs) ! i) # map f (complete cs (take i (x # xs) @ drop (Suc i) (x # xs)))"
    unfolding r n using 3 [OF i_def] by simp
  also have "\<dots> = map f (complete (c # cs) (x # xs))"
    by (simp add: Let_def i_def)
  finally show ?case .
qed simp_all

lemma map_fst_spawned: "map fst (spawned services N) = concat (map (replicate (nat N)) services)"
  by (induction services) (simp_all add: spawned_def)

lemma csv_record_goroutine:
  "csv_record E FormatRFC3339 (goroutine E start s N) = request_row E FormatRFC3339 start s N"
  by (cases "HttpGet E start (URL s)"; cases "fst (HttpGet E start (URL s))")
     (auto simp: csv_record_def goroutine_def request_row_def client_Get_def Let_def
        FormatBool_def Since_def)

lemma issued_rows:
  "map (csv_record E FormatRFC3339)
     (map (\<lambda>(k, (s, grp)). goroutine E (starts k) s grp) (enumerate 0 (spawned services N)))
   = request_rows E starts FormatRFC3339 services N"
proof (rule nth_equalityI)
  show "length (map (csv_record E FormatRFC3339)
     (map (\<lambda>(k, (s, grp)). goroutine E (starts k) s grp) (enumerate 0 (spawned services N))))
   = length (request_rows E starts FormatRFC3339 services N)"
    by (simp add: request_rows_def map_fst_spawned [symmetric])
next
  fix i
  assume "i < length (map (csv_record E FormatRFC3339)
     (map (\<lambda>(k, (s, grp)). goroutine E (starts k) s grp) (enumerate 0 (spawned services N))))"
  then have i: "i < length (spawned services N)" by simp
  obtain s g where sg: "spawned services N ! i = (s, g)" by (cases "spawned services N ! i")
  with i have "(s, g) \<in> set (spawned services N)" by (metis nth_mem)
  then have g: "g = N" by (rule set_spawned)
  have f: "map fst (spawned services N) ! i = s"
    using i sg by simp
  have "request_rows E starts FormatRFC3339 services N ! i
      = request_row E FormatRFC3339 (starts i) s N"
    using i f by (simp add: request_rows_def map_fst_spawned [symmetric] nth_enumerate_eq)
  moreover have "map (csv_record E FormatRFC3339)
     (map (\<lambda>(k, (s, grp)). goroutine E (starts k) s grp) (enumerate 0 (spawned services N))) ! i
      = csv_record E FormatRFC3339 (goroutine E (starts i) s N)"
    using i sg g by (simp add: nth_enumerate_eq)
  ultimately show "map (csv_record E FormatRFC3339)
     (map (\<lambda>(k, (s, grp)). goroutine E (starts k) s grp) (enumerate 0 (spawned services N))) ! i
      = request_rows E starts FormatRFC3339 services N ! i"
    by (simp add: csv_record_goroutine)
qed

lemma batch_rows:
  "map (csv_record E FormatRFC3339) (batch_results E starts sched services N)
   = complete sched (request_rows E starts FormatRFC3339 services N)"
  unfolding batch_results_def complete_map [symmetric] issued_rows ..

lemma batch_results_group:
  "r \<in> set (batch_results E starts sched services N) \<Longrightarrow> ConcurrentGroup r = N"
  by (auto simp: batch_results_def set_complete in_set_enumerate_eq goroutine_def Let_def
           split: prod.splits dest!: nth_mem set_spawned)

lemma map_enumerate_snd: "map (\<lambda>(k, s). f s) (enumerate n xs) = map f xs"
  by (induction xs arbitrary: n) simp_all

lemma Itoa_10: "Itoa 10 = ''10''"
  by (simp add: Itoa_def uitoa.simps digit_def)

lemma request_row_up:
  "request_row E_up (\<lambda>t. ''t'') start s 10 = [Name_L s, ''t'', ''0.00'', ''true'', ''10'']"
  by (simp add: request_row_def E_up_def requestTimeout_def Second_def Itoa_10)

lemma request_rows_up:
  "request_rows E_up (\<lambda>k. k) (\<lambda>t. ''t'') services_L 10
   = replicate 10 [''Weather Service'', ''t'', ''0.00'', ''true'', ''10'']
     @ replicate 10 [''Parking Service'', ''t'', ''0.00'', ''true'', ''10'']
     @ replicate 10 [''Traffic Light Service'', ''t'', ''0.00'', ''true'', ''10'']"
  by (simp add: request_rows_def request_row_up map_enumerate_snd map_concat services_L_def)

lemma complete_up:
  "hd (complete [2, 0, 1]
         (replicate 10 [''Weather Service'', ''t'', ''0.00'', ''true'', ''10'']
          @ replicate 10 [''Parking Service'', ''t'', ''0.00'', ''true'', ''10'']
          @ replicate 10 [''Traffic Light Service'', ''t'', ''0.00'', ''true'', ''10'']))
   = [''Weather Service'', ''t'', ''0.00'', ''true'', ''10'']"
  "last (complete [2, 0, 1]
         (replicate 10 [''Weather Service'', ''t'', ''0.00'', ''true'', ''10'']
          @ replicate 10 [''Parking Service'', ''t'', ''0.00'', ''true'', ''10'']
          @ replicate 10 [''Traffic Light Service'', ''t'', ''0.00'', ''true'', ''10'']))
   = [''Traffic Light Service'', ''t'', ''0.00'', ''true'', ''10'']"
  by code_simp+

text \<open>
  Claim C1 as stated speaks of every stress level. The channel of \<open>testServices\<close> is
  made with room for \<open>N * M\<close> results before any request is issued, and the \<^verbatim>\<open>make\<close>
  panics when that is too many: at the stress level \<open>2^42\<close> over the three endpoints of
  the harness, a number within the range of Go's \<^verbatim>\<open>int\<close> with no wrap-around in the
  product, the call panics; no request is issued and no row is written.
\<close>

theorem make_panics_counterexample:
  "(0::int) \<le> 2 ^ 42 \<and> (2::int) ^ 42 * int (length services_L) < 2 ^ 63
   \<and> services_L \<noteq> []
   \<and> testServices E_up (\<lambda>k. k) (\<lambda>t. ''t'') [] services_L (2 ^ 42) [] = Panic"
proof -
  have "testServices E_up (\<lambda>k. k) (\<lambda>t. ''t'') [] services_L (2 ^ 42) [] = Panic"
    by (rule testServices_Panic) (simp_all add: services_L_def)
  then show ?thesis by (simp add: services_L_def)
qed

text \<open>
  Claim C1, as amended. For a stress level \<open>N\<close> that is a count (\<open>0 \<le> N\<close>) and a list of
  \<open>M\<close> endpoints with \<open>N * M \<le> 2^42 - 2\<close>, on a machine that has the memory for \<open>N * M\<close>
  requests, one call of \<open>testServices\<close> starts exactly \<open>N * M\<close> requests, \<open>N\<close> to each
  endpoint of the list, and returns (it does not panic, does not run out of memory and
  does not wait for ever) whatever the replies and whatever the order of completion. It
  has then written, after the rows the writer held before, exactly \<open>N * M\<close> rows: one
  for each request issued, the row of that request (\<open>request_row\<close>: the endpoint's name,
  the issue time, the latency to the reply or the 10-second timeout, success if and only
  if status 200 came within the timeout, the stress level), in the order in which the
  requests completed.
\<close>

theorem testServices_rows:
  assumes "0 \<le> N" and "N * int (length services) \<le> 2 ^ 42 - 2"
    and "MemoryFor E (nat N * length services)"
  shows "length (spawned services N) = nat N * length services
       \<and> map fst (spawned services N) = concat (map (replicate (nat N)) services)
       \<and> (\<exists>out. testServices E starts FormatRFC3339 sched services N rows = Done (rows @ out)
              \<and> length out = nat N * length services
              \<and> out = complete sched (request_rows E starts FormatRFC3339 services N)
              \<and> mset out = mset (request_rows E starts FormatRFC3339 services N))"
proof -
  let ?out = "map (csv_record E FormatRFC3339) (batch_results E starts sched services N)"
  have d: "testServices E starts FormatRFC3339 sched services N rows = Done (rows @ ?out)"
    by (rule testServices_Done [OF assms])
  have l: "length ?out = nat N * length services"
    by (simp add: length_batch_results)
  have o: "?out = complete sched (request_rows E starts FormatRFC3339 services N)"
    by (rule batch_rows)
  have m: "mset ?out = mset (request_rows E starts FormatRFC3339 services N)"
    unfolding o by (rule mset_complete)
  from d l o m show ?thesis
    by (intro conjI exI [of _ ?out]) (simp_all only: length_spawned map_fst_spawned)
qed

text \<open>
  The witness: the first batch of the harness, stress level 10 over its three endpoints,
  in the world \<open>E_up\<close>, where the goroutine started third finishes first.
\<close>

theorem testServices_rows_witness:
  "(0::int) \<le> 10 \<and> 10 * int (length services_L) \<le> 2 ^ 42 - 2
   \<and> MemoryFor E_up (nat 10 * length services_L)
   \<and> length (spawned services_L 10) = 30
   \<and> (\<exists>out. testServices E_up (\<lambda>k. k) (\<lambda>t. ''t'') [2, 0, 1] services_L 10 [] = Done ([] @ out)
          \<and> length out = 30
          \<and> out = complete [2, 0, 1] (request_rows E_up (\<lambda>k. k) (\<lambda>t. ''t'') services_L 10)
          \<and> hd out = [''Weather Service'', ''t'', ''0.00'', ''true'', ''10'']
          \<and> last out = [''Traffic Light Service'', ''t'', ''0.00'', ''true'', ''10''])"
proof -
  have h: "(0::int) \<le> 10" "10 * int (length services_L) \<le> 2 ^ 42 - 2"
    "MemoryFor E_up (nat 10 * length services_L)"
    by (simp_all add: services_L_def E_up_def)
  note t = testServices_rows [OF h, of "\<lambda>k. k" "\<lambda>t. ''t''" "[2, 0, 1]" "[]"]
  have n: "nat 10 * length services_L = 30"
    by (simp add: services_L_def)
  from t have s: "length (spawned services_L 10) = 30"
    unfolding n by (rule conjunct1)
  from t obtain out
    where d: "testServices E_up (\<lambda>k. k) (\<lambda>t. ''t'') [2, 0, 1] services_L 10 [] = Done ([] @ out)"
      and l: "length out = 30"
      and o: "out = complete [2, 0, 1] (request_rows E_up (\<lambda>k. k) (\<lambda>t. ''t'') services_L 10)"
    unfolding n by blast
  have e: "hd out = [''Weather Service'', ''t'', ''0.00'', ''true'', ''10'']"
    "last out = [''Traffic Light Service'', ''t'', ''0.00'', ''true'', ''10'']"
    unfolding o request_rows_up by (rule complete_up)+
  from h s d l o e show ?thesis by blast
qed

text \<open>
  Claim C6. Every result of a batch at concurrency \<open>N\<close> has \<open>ConcurrentGroup = N\<close>, and
  every row that the batch writes carries the decimal digits of \<open>N\<close> in its fifth field.
\<close>

theorem rows_carry_group:
  "(\<forall>r\<in>set (batch_results E starts sched services N). ConcurrentGroup r = N)
   \<and> (\<forall>out. testServices E starts FormatRFC3339 sched services N rows = Done out \<longrightarrow>
         (\<forall>row\<in>set (drop (length rows) out). row ! 4 = Itoa N))"
proof (intro conjI allI impI ballI)
  fix r assume "r \<in> set (batch_results E starts sched services N)"
  then show "ConcurrentGroup r = N" by (rule batch_results_group)
next
  fix out row
  assume d: "testServices E starts FormatRFC3339 sched services N rows = Done out"
    and r: "row \<in> set (drop (length rows) out)"
  from d have "out = rows @ map (csv_record E FormatRFC3339)
                               (batch_results E starts sched services N)"
    by (auto simp: testServices_def Let_def split: if_splits)
  with r obtain res where "res \<in> set (batch_results E starts sched services N)"
    and "row = csv_record E FormatRFC3339 res" by auto
  then show "row ! 4 = Itoa N"
    by (simp add: csv_record_def batch_results_group)
qed

theorem rows_carry_group_witness:
  "length (batch_results E_up (\<lambda>k. k) [2, 0, 1] services_L 10) = 30
   \<and> list_all (\<lambda>r. ConcurrentGroup r = 10) (batch_results E_up (\<lambda>k. k) [2, 0, 1] services_L 10)
   \<and> (\<exists>out. testServices E_up (\<lambda>k. k) (\<lambda>t. ''t'') [2, 0, 1] services_L 10 [] = Done out
         \<and> length out = 30 \<and> list_all (\<lambda>row. row ! 4 = ''10'') out)"
proof -
  have d: "testServices E_up (\<lambda>k. k) (\<lambda>t. ''t'') [2, 0, 1] services_L 10 []
      = Done ([] @ map (csv_record E_up (\<lambda>t. ''t''))
                        (batch_results E_up (\<lambda>k. k) [2, 0, 1] services_L 10))"
    by (rule testServices_Done) (simp_all add: services_L_def E_up_def)
  have l: "length (batch_results E_up (\<lambda>k. k) [2, 0, 1] services_L 10) = 30"
    by (simp add: length_batch_results services_L_def)
  have i: "Itoa 10 = ''10''"
    by (simp add: Itoa_def uitoa.simps digit_def)
  show ?thesis
    using rows_carry_group [of E_up "\<lambda>k. k" "[2, 0, 1]" services_L 10 "\<lambda>t. ''t''" "[]"] d l i
    by (simp add: list_all_iff)
qed

subsection \<open>Readiness monitor\<close>

lemma Seconds_eq: "Seconds d = real_of_int d / 1000000000"
proof -
  have "real_of_int d = real_of_int ((d div 1000000000) * 1000000000 + d mod 1000000000)"
    by simp
  also have "\<dots> = real_of_int (d div 1000000000) * 1000000000 + real_of_int (d mod 1000000000)"
    by (simp only: of_int_add of_int_mult of_int_numeral)
  finally show ?thesis by (simp add: Seconds_def field_simps)
qed

lemma Seconds_mono: "a \<le> b \<Longrightarrow> Seconds a \<le> Seconds b"
  by (simp add: Seconds_eq divide_right_mono)

lemma Seconds_Since_nonneg: "s \<le> t \<Longrightarrow> 0 \<le> Seconds (Since s t)"
  by (simp add: Seconds_eq Since_def)

lemma Seconds_Since_mono: "t \<le> t' \<Longrightarrow> Seconds (Since s t) \<le> Seconds (Since s t')"
  by (rule Seconds_mono) (simp add: Since_def)

lemma only_gets_refl: "only_gets st st"
  by (simp add: only_gets_def)

lemma only_gets_trans: "only_gets a b \<Longrightarrow> only_gets b c \<Longrightarrow> only_gets a c"
  by (auto simp: only_gets_def)

lemma only_gets_get: "only_gets st (advance d (emit (EvHttpGet url) st))"
  by (simp add: only_gets_def advance_def emit_def is_get_def)

lemma isConsulServiceHealthy_gets: "only_gets st (snd (isConsulServiceHealthy E k st))"
  by (auto simp: isConsulServiceHealthy_def Let_def only_gets_get
           split: prod.splits http_result.splits option.splits)

lemma isServiceHealthy_gets: "only_gets st (snd (isServiceHealthy E timeout url st))"
  by (auto simp: isServiceHealthy_def Let_def only_gets_get only_gets_refl
           split: prod.splits http_result.splits option.splits)

lemma select_wait_gets: "only_gets st (select_wait t0 p st)"
  by (simp add: only_gets_def select_wait_def)

lemma poll_consul_gets: "only_gets st (snd (poll_consul E service startTime (p, st)))"
  using isConsulServiceHealthy_gets [of st E "ConsulKey service"]
  by (auto simp: poll_consul_def Let_def only_gets_refl split: prod.splits)

lemma poll_health_gets: "only_gets st (snd (poll_health E timeout service startTime (p, st)))"
  using isServiceHealthy_gets [of st E timeout "HealthURL service"]
  by (auto simp: poll_health_def Let_def only_gets_refl split: prod.splits)

lemma on_tick_gets: "only_gets st (snd (on_tick E timeout service startTime t0 p st))"
proof -
  obtain p1 st1 where c: "poll_consul E service startTime
      (p\<lparr>nextTick := t0 + tickInterval * ((clock st - t0) div tickInterval + 1), iter := Suc (iter p)\<rparr>, st) = (p1, st1)"
    by (cases "poll_consul E service startTime
      (p\<lparr>nextTick := t0 + tickInterval * ((clock st - t0) div tickInterval + 1), iter := Suc (iter p)\<rparr>, st)")
  have "only_gets st st1" using poll_consul_gets [of st E service startTime] c
    by (metis snd_conv)
  moreover have "only_gets st1 (snd (poll_health E timeout service startTime (p1, st1)))"
    by (rule poll_health_gets)
  ultimately show ?thesis
    unfolding on_tick_def c by (rule only_gets_trans)
qed

lemma poll_consul_ticks:
  "iter (fst (poll_consul E service startTime ps)) = iter (fst ps)"
  "nextTick (fst (poll_consul E service startTime ps)) = nextTick (fst ps)"
  "serviceHealthy (fst (poll_consul E service startTime ps)) = serviceHealthy (fst ps)"
  "healthTime (fst (poll_consul E service startTime ps)) = healthTime (fst ps)"
  by (auto simp: poll_consul_def Let_def split: prod.splits)

lemma poll_health_ticks:
  "iter (fst (poll_health E timeout service startTime ps)) = iter (fst ps)"
  "nextTick (fst (poll_health E timeout service startTime ps)) = nextTick (fst ps)"
  "consulReady (fst (poll_health E timeout service startTime ps)) = consulReady (fst ps)"
  "consulTime (fst (poll_health E timeout service startTime ps)) = consulTime (fst ps)"
  by (auto simp: poll_health_def Let_def split: prod.splits)

lemma on_tick_ticks:
  "iter (fst (on_tick E timeout service startTime t0 p st)) = Suc (iter p)"
  "nextTick (fst (on_tick E timeout service startTime t0 p st))
     = t0 + tickInterval * ((clock st - t0) div tickInterval + 1)"
  by (simp_all add: on_tick_def poll_health_ticks poll_consul_ticks)

lemma readyTimeout_ticks: "readyTimeout = 120 * tickInterval"
  by (simp add: readyTimeout_def tickInterval_def Minute_def)

lemma tickInterval_pos: "0 < tickInterval"
  by (simp add: tickInterval_def Second_def)

lemma select_wait_clock:
  "clock (select_wait t0 p st) = max (clock st) (min (t0 + readyTimeout) (nextTick p))"
  by (simp add: select_wait_def)

lemma tick_is_ready:
  assumes "\<not> takes_timeout E t0 p (select_wait t0 p st)"
  shows "nextTick p \<le> clock (select_wait t0 p st)"
  using assms unfolding takes_timeout_def select_wait_clock by (auto simp: max_def min_def split: if_splits)

lemma timeout_at_last:
  assumes "Pick E t0 (iter p)" and "119 \<le> iter p"
    and "t0 + (iter p + 1) * tickInterval \<le> nextTick p"
  shows "takes_timeout E t0 p (select_wait t0 p st)"
proof -
  have "120 \<le> iter p + 1"
    using assms(2) by simp
  then have "120 * tickInterval \<le> (iter p + 1) * tickInterval"
    by (rule mult_le_mono1)
  with assms(3) have "t0 + readyTimeout \<le> nextTick p"
    unfolding readyTimeout_ticks by linarith
  then have "t0 + readyTimeout \<le> clock (select_wait t0 p st)"
    unfolding select_wait_clock by simp
  with assms(1) show ?thesis by (simp add: takes_timeout_def)
qed

lemma next_tick_later:
  assumes "t0 + (i + 1) * tickInterval \<le> c"
  shows "t0 + (Suc i + 1) * tickInterval \<le> t0 + tickInterval * ((c - t0) div tickInterval + 1)"
proof -
  from assms have "(i + 1) * tickInterval \<le> c - t0" by simp
  then have "i + 1 \<le> (c - t0) div tickInterval"
    using tickInterval_pos by (simp add: less_eq_div_iff_mult_less_eq)
  then have "(Suc i + 1) \<le> (c - t0) div tickInterval + 1" by simp
  then have "(Suc i + 1) * tickInterval \<le> ((c - t0) div tickInterval + 1) * tickInterval"
    by (rule mult_le_mono1)
  then show ?thesis by (simp add: mult.commute)
qed

lemma no_hang:
  assumes "\<forall>t. \<not> NeverReturns E t (consul_checks_url (ConsulKey service))"
  shows "\<not> registry_hangs E service p st"
  using assms by (simp add: registry_hangs_def)

lemma waitReady_returns:
  assumes pick: "Pick E t0 k" and k: "119 \<le> k"
    and ans: "\<forall>t. \<not> NeverReturns E t (consul_checks_url (ConsulKey service))"
  shows "iter p \<le> k \<Longrightarrow> t0 + (iter p + 1) * tickInterval \<le> nextTick p
         \<Longrightarrow> \<exists>r st'. waitReady E timeout service startTime t0 p st = Some (r, st')"
proof (induction "k - iter p" arbitrary: p st rule: less_induct)
  case less
  let ?st1 = "select_wait t0 p st"
  let ?pt = "on_tick E timeout service startTime t0 p ?st1"
  show ?case
  proof (cases "takes_timeout E t0 p ?st1")
    case True
    then show ?thesis by (subst waitReady.simps) simp
  next
    case nt: False
    note nh = no_hang [OF ans, of p ?st1]
    show ?thesis
    proof (cases "consulReady (fst ?pt) \<and> serviceHealthy (fst ?pt)")
      case True
      with nt nh show ?thesis by (subst waitReady.simps) simp
    next
      case False
      have lt: "iter p < k"
      proof (rule ccontr)
        assume "\<not> iter p < k"
        with less.prems(1) have "iter p = k" by simp
        with pick k less.prems(2) have "takes_timeout E t0 p ?st1"
          by (intro timeout_at_last) simp_all
        with nt show False by simp
      qed
      have "t0 + (iter p + 1) * tickInterval \<le> clock ?st1"
        using tick_is_ready [OF nt] less.prems(2) by simp
      then have inv: "t0 + (iter (fst ?pt) + 1) * tickInterval \<le> nextTick (fst ?pt)"
        unfolding on_tick_ticks by (rule next_tick_later)
      have "\<exists>r st'. waitReady E timeout service startTime t0 (fst ?pt) (snd ?pt) = Some (r, st')"
        using lt inv by (intro less.hyps) (simp_all add: on_tick_ticks)
      with nt nh False show ?thesis by (subst waitReady.simps) simp
    qed
  qed
qed

lemma times_ok_later:
  "times_ok startTime p st \<Longrightarrow> clock st \<le> clock st' \<Longrightarrow> times_ok startTime p st'"
  unfolding times_ok_def
  using Seconds_Since_mono [of "clock st" "clock st'" startTime] by linarith

lemma only_gets_clock: "only_gets st st' \<Longrightarrow> clock st \<le> clock st'"
  by (simp add: only_gets_def)

lemma times_ok_poll_consul:
  assumes "times_ok startTime (fst ps) (snd ps)"
  shows "times_ok startTime (fst (poll_consul E service startTime ps))
           (snd (poll_consul E service startTime ps))"
proof (cases ps)
  case (Pair p st)
  obtain b st' where r: "isConsulServiceHealthy E (ConsulKey service) st = (b, st')"
    by (cases "isConsulServiceHealthy E (ConsulKey service) st")
  have c: "clock st \<le> clock st'"
    using isConsulServiceHealthy_gets [of st E "ConsulKey service"] r
    by (simp add: only_gets_clock)
  from assms Pair have ok: "times_ok startTime p st" by simp
  from times_ok_later [OF ok c] have ok': "times_ok startTime p st'" .
  then have s: "startTime \<le> clock st'" by (simp add: times_ok_def)
  show ?thesis
    using ok ok' Seconds_Since_nonneg [OF s]
    by (simp add: Pair poll_consul_def Let_def r times_ok_def)
qed

lemma times_ok_poll_health:
  assumes "times_ok startTime (fst ps) (snd ps)"
  shows "times_ok startTime (fst (poll_health E timeout service startTime ps))
           (snd (poll_health E timeout service startTime ps))"
proof (cases ps)
  case (Pair p st)
  obtain b st' where r: "isServiceHealthy E timeout (HealthURL service) st = (b, st')"
    by (cases "isServiceHealthy E timeout (HealthURL service) st")
  have c: "clock st \<le> clock st'"
    using isServiceHealthy_gets [of st E timeout "HealthURL service"] r
    by (simp add: only_gets_clock)
  from assms Pair have ok: "times_ok startTime p st" by simp
  from times_ok_later [OF ok c] have ok': "times_ok startTime p st'" .
  then have s: "startTime \<le> clock st'" by (simp add: times_ok_def)
  show ?thesis
    using ok ok' Seconds_Since_nonneg [OF s]
    by (simp add: Pair poll_health_def Let_def r times_ok_def)
qed

lemma times_ok_on_tick:
  assumes "times_ok startTime p st"
  shows "times_ok startTime (fst (on_tick E timeout service startTime t0 p st))
           (snd (on_tick E timeout service startTime t0 p st))"
  unfolding on_tick_def
  by (intro times_ok_poll_health times_ok_poll_consul) (use assms in \<open>simp add: times_ok_def\<close>)

lemma times_ok_step:
  assumes "times_ok startTime p st"
  shows "times_ok startTime (fst (on_tick E timeout service startTime t0 p (select_wait t0 p st)))
           (snd (on_tick E timeout service startTime t0 p (select_wait t0 p st)))"
  by (intro times_ok_on_tick times_ok_later [OF assms]) (simp add: select_wait_clock)

lemma only_gets_step:
  "only_gets st (snd (on_tick E timeout service startTime t0 p (select_wait t0 p st)))"
  by (rule only_gets_trans [OF select_wait_gets on_tick_gets])

lemma waitReady_post:
  assumes "waitReady E timeout service startTime t0 p st = Some y"
  shows "only_gets st (snd y)
     \<and> (case fst y of
          None \<Rightarrow> t0 + readyTimeout \<le> clock (snd y)
        | Some q \<Rightarrow> consulReady q \<and> serviceHealthy q
                    \<and> (times_ok startTime p st \<longrightarrow> times_ok startTime q (snd y)))"
proof (rule waitReady.raw_induct
    [where P = "\<lambda>E timeout service startTime t0 p st y.
      only_gets st (snd y)
      \<and> (case fst y of
           None \<Rightarrow> t0 + readyTimeout \<le> clock (snd y)
         | Some q \<Rightarrow> consulReady q \<and> serviceHealthy q
                     \<and> (times_ok startTime p st \<longrightarrow> times_ok startTime q (snd y)))",
     OF _ assms])
  fix f :: "env \<Rightarrow> nat \<Rightarrow> Service \<Rightarrow> nat \<Rightarrow> nat \<Rightarrow> poll \<Rightarrow> state \<Rightarrow> (poll option \<times> state) option"
  fix E timeout service startTime t0 p st y
  let ?st1 = "select_wait t0 p st"
  let ?pt = "on_tick E timeout service startTime t0 p ?st1"
  assume IH: "\<And>E timeout service startTime t0 p st y.
      f E timeout service startTime t0 p st = Some y \<Longrightarrow>
      only_gets st (snd y)
      \<and> (case fst y of
           None \<Rightarrow> t0 + readyTimeout \<le> clock (snd y)
         | Some q \<Rightarrow> consulReady q \<and> serviceHealthy q
                     \<and> (times_ok startTime p st \<longrightarrow> times_ok startTime q (snd y)))"
  assume eq: "(if takes_timeout E t0 p ?st1 then Some (None, ?st1)
      else if registry_hangs E service p ?st1 then None
      else if consulReady (fst ?pt) \<and> serviceHealthy (fst ?pt)
           then Some (Some (fst ?pt), snd ?pt)
           else f E timeout service startTime t0 (fst ?pt) (snd ?pt)) = Some y"
  show "only_gets st (snd y)
      \<and> (case fst y of
           None \<Rightarrow> t0 + readyTimeout \<le> clock (snd y)
         | Some q \<Rightarrow> consulReady q \<and> serviceHealthy q
                     \<and> (times_ok startTime p st \<longrightarrow> times_ok startTime q (snd y)))"
  proof (cases "takes_timeout E t0 p ?st1")
    case True
    with eq have "y = (None, ?st1)" by simp
    with True show ?thesis by (simp add: select_wait_gets takes_timeout_def)
  next
    case nt: False
    show ?thesis
    proof (cases "consulReady (fst ?pt) \<and> serviceHealthy (fst ?pt)")
      case True
      with nt eq have "y = (Some (fst ?pt), snd ?pt)" by (simp split: if_splits)
      with True show ?thesis by (simp add: only_gets_step times_ok_step)
    next
      case False
      with nt eq have "f E timeout service startTime t0 (fst ?pt) (snd ?pt) = Some y"
        by (simp split: if_splits)
      from IH [OF this] show ?thesis
        using only_gets_trans [OF only_gets_step [of st E timeout service startTime t0 p]]
              times_ok_step [of startTime p st E timeout service t0]
        by (auto split: option.splits)
    qed
  qed
qed

subsection \<open>A run in the example world\<close>

lemma service_up: "service_of E_up d = weather"
  by (simp add: service_of_def E_up_def Let_def weather_def)

lemma consul_up: "isConsulServiceHealthy E_up k st = (True, advance 20000000 (emit (EvHttpGet (consul_checks_url k)) st))"
  by (simp add: isConsulServiceHealthy_def E_up_def passing_body_def Let_def)

lemma health_up:
  "20000000 < timeout \<Longrightarrow> isServiceHealthy E_up timeout u st = (True, advance 20000000 (emit (EvHttpGet u) st))"
  by (simp add: isServiceHealthy_def client_Get_def E_up_def Let_def)

lemma run_cmd_up:
  "run_cmd E_up argv dir st
   = (True, advance 3000000000 (emit (EvRun argv dir (clock st) (clock st + 3000000000)) st))"
  by (simp add: run_cmd_def E_up_def Let_def)

lemma chdir_up: "chdir E_up d st = (True, (emit (EvChdir d) st)\<lparr>cwd := d\<rparr>)"
  by (simp add: chdir_def E_up_def)

lemma answers_up: "\<not> registry_hangs E_up service p st"
  by (simp add: registry_hangs_def E_up_def)

lemma waitReady_up:
  assumes "clock st = t0" and "20000000 < timeout"
  shows "waitReady E_up timeout service startTime t0 (poll_init t0) st
   = Some (Some \<lparr>consulReady = True, serviceHealthy = True,
                 consulTime = Seconds (Since startTime (t0 + 1020000000)),
                 healthTime = Seconds (Since startTime (t0 + 1040000000)),
                 nextTick = t0 + 2000000000, iter = 1\<rparr>,
           st\<lparr>clock := t0 + 1040000000,
              trace := trace st @ [EvHttpGet (consul_checks_url (ConsulKey service)),
                                   EvHttpGet (HealthURL service)]\<rparr>)"
proof -
  have w: "select_wait t0 (poll_init t0) st = st\<lparr>clock := t0 + 1000000000\<rparr>"
    using assms(1)
    by (simp add: select_wait_def poll_init_def tickInterval_def readyTimeout_def Minute_def Second_def)
  have nt: "\<not> takes_timeout E_up t0 (poll_init t0) (st\<lparr>clock := t0 + 1000000000\<rparr>)"
    by (simp add: takes_timeout_def readyTimeout_def Minute_def Second_def)
  have t: "on_tick E_up timeout service startTime t0 (poll_init t0) (st\<lparr>clock := t0 + 1000000000\<rparr>)
    = (\<lparr>consulReady = True, serviceHealthy = True,
                 consulTime = Seconds (Since startTime (t0 + 1020000000)),
                 healthTime = Seconds (Since startTime (t0 + 1040000000)),
                 nextTick = t0 + 2000000000, iter = 1\<rparr>,
           st\<lparr>clock := t0 + 1040000000,
              trace := trace st @ [EvHttpGet (consul_checks_url (ConsulKey service)),
                                   EvHttpGet (HealthURL service)]\<rparr>)"
    using assms(2)
    by (simp add: on_tick_def poll_consul_def poll_health_def consul_up health_up Let_def
        poll_init_def tickInterval_def Second_def advance_def emit_def add.commute)
  show ?thesis
    by (subst waitReady.simps) (simp add: w nt t answers_up)
qed

lemma measure_F_up:
  "measureDetailedStartupTime_F E_up weather weather_dir st_up
   = Some (Inr (201 / 50, 101 / 25),
      st_up\<lparr>clock := 12040000000,
        trace := [EvChdir weather_dir, EvSleep 5000000000,
                  EvRun compose_up [] 5000000000 8000000000,
                  EvNow 8000000000,
                  EvRun (compose_scale ''weather'') [] 8000000000 11000000000,
                  EvHttpGet (consul_checks_url ''weather''),
                  EvHttpGet ''http://weather.localhost/health'',
                  EvChdir ''/repo/Testing/Failure'']\<rparr>)"
proof -
  have "20000000 < healthTimeout_F" by (simp add: healthTimeout_F_def Second_def)
  note w = waitReady_up [OF _ this]
  show ?thesis
    by (simp add: measureDetailedStartupTime_F_def chdir_up run_cmd_up chdir_back_def sleep_def
      w advance_def emit_def Let_def Second_def st_up_def weather_def Seconds_def Since_def)
qed

lemma measure_S_up:
  "measureDetailedStartupTime_S E_up weather weather_dir st_up
   = Some (Inr \<lparr>totalStartupTime = 101 / 25, consulCheckTime = 201 / 50, healthCheckTime = 101 / 25,
                consulPassed = True, containerStartTime = 3\<rparr>,
      st_up\<lparr>clock := 7040000000,
        trace := [EvChdir weather_dir,
                  EvRun compose_down [] 0 3000000000,
                  EvNow 3000000000,
                  EvRun compose_up [] 3000000000 6000000000,
                  EvHttpGet (consul_checks_url ''weather''),
                  EvHttpGet ''http://weather.localhost/health'',
                  EvChdir ''/repo/Testing/Failure'']\<rparr>)"
proof -
  have "20000000 < healthTimeout_S" by (simp add: healthTimeout_S_def Second_def)
  note w = waitReady_up [OF _ this]
  show ?thesis
    by (simp add: measureDetailedStartupTime_S_def chdir_up run_cmd_up chdir_back_def sleep_def
      w advance_def emit_def Let_def Second_def st_up_def weather_def Seconds_def Since_def)
qed

subsection \<open>The readiness cycle returns\<close>

lemma waitReady_total:
  assumes "\<exists>k\<ge>119. Pick E t0 k"
    and ans: "\<forall>t. \<not> NeverReturns E t (consul_checks_url (ConsulKey service))"
  shows "\<exists>r st'. waitReady E timeout service startTime t0 (poll_init t0) st = Some (r, st')"
proof -
  from assms obtain k where k: "119 \<le> k" and pick: "Pick E t0 k" by blast
  show ?thesis
    by (rule waitReady_returns [OF pick k ans]) (simp_all add: poll_init_def)
qed

lemma measure_F_total:
  assumes "\<forall>t0. \<exists>k\<ge>119. Pick E t0 k"
    and ans: "\<forall>t. \<not> NeverReturns E t (consul_checks_url (ConsulKey service))"
  shows "\<exists>y. measureDetailedStartupTime_F E service dir st = Some y"
proof -
  have "\<exists>r st'. waitReady E timeout service startTime t0 (poll_init t0) s = Some (r, st')"
    for timeout startTime t0 s
    using assms(1) by (intro waitReady_total [OF _ ans]) simp
  then show ?thesis
    unfolding measureDetailedStartupTime_F_def Let_def
    by (auto split: prod.splits simp: bind_eq_Some_conv) 
qed


lemma measure_S_total:
  assumes "\<forall>t0. \<exists>k\<ge>119. Pick E t0 k"
    and ans: "\<forall>t. \<not> NeverReturns E t (consul_checks_url (ConsulKey service))"
  shows "\<exists>y. measureDetailedStartupTime_S E service dir st = Some y"
proof -
  have "\<exists>r st'. waitReady E timeout service startTime t0 (poll_init t0) s = Some (r, st')"
    for timeout startTime t0 s
    using assms(1) by (intro waitReady_total [OF _ ans]) simp
  then show ?thesis
    unfolding measureDetailedStartupTime_S_def Let_def
    by (auto split: prod.splits simp: bind_eq_Some_conv)
qed

lemma waitReady_timeout_now:
  assumes "takes_timeout E t0 p (select_wait t0 p s)"
  shows "waitReady E timeout service startTime t0 p s = Some (None, select_wait t0 p s)"
  using assms by (subst waitReady.simps) simp

lemma waitReady_step:
  assumes "\<not> takes_timeout E t0 p (select_wait t0 p s)"
    and "\<not> registry_hangs E service p (select_wait t0 p s)"
  shows "waitReady E timeout service startTime t0 p s
       = (if consulReady (fst (on_tick E timeout service startTime t0 p (select_wait t0 p s)))
             \<and> serviceHealthy (fst (on_tick E timeout service startTime t0 p (select_wait t0 p s)))
          then Some (Some (fst (on_tick E timeout service startTime t0 p (select_wait t0 p s))),
                     snd (on_tick E timeout service startTime t0 p (select_wait t0 p s)))
          else waitReady E timeout service startTime t0
                 (fst (on_tick E timeout service startTime t0 p (select_wait t0 p s)))
                 (snd (on_tick E timeout service startTime t0 p (select_wait t0 p s))))"
  using assms by (subst waitReady.simps) simp

lemma waitReady_hangs:
  assumes "\<not> takes_timeout E t0 p (select_wait t0 p s)"
    and "registry_hangs E service p (select_wait t0 p s)"
  shows "waitReady E timeout service startTime t0 p s = None"
  using assms by (subst waitReady.simps) simp

lemma poll_consul_flag:
  "consulReady p \<Longrightarrow> poll_consul E service startTime (p, s) = (p, s)"
  "\<not> consulReady p \<Longrightarrow>
     consulReady (fst (poll_consul E service startTime (p, s)))
       = fst (isConsulServiceHealthy E (ConsulKey service) s)
     \<and> (consulReady (fst (poll_consul E service startTime (p, s))) \<longrightarrow>
          consulTime (fst (poll_consul E service startTime (p, s)))
            = Seconds (Since startTime (clock (snd (isConsulServiceHealthy E (ConsulKey service) s)))))"
  by (auto simp: poll_consul_def Let_def split: prod.splits)

lemma poll_health_flag:
  "serviceHealthy p \<Longrightarrow> poll_health E timeout service startTime (p, s) = (p, s)"
  "\<not> serviceHealthy p \<Longrightarrow>
     serviceHealthy (fst (poll_health E timeout service startTime (p, s)))
       = fst (isServiceHealthy E timeout (HealthURL service) s)
     \<and> (serviceHealthy (fst (poll_health E timeout service startTime (p, s))) \<longrightarrow>
          healthTime (fst (poll_health E timeout service startTime (p, s)))
            = Seconds (Since startTime (clock (snd (isServiceHealthy E timeout (HealthURL service) s)))))"
  by (auto simp: poll_health_def Let_def split: prod.splits)

lemma on_tick_keeps_consul:
  assumes "consulReady p"
  shows "consulReady (fst (on_tick E timeout service startTime t0 p s))
       \<and> consulTime (fst (on_tick E timeout service startTime t0 p s)) = consulTime p"
  using assms by (simp add: on_tick_def poll_health_ticks poll_consul_flag(1))

lemma on_tick_keeps_health:
  assumes "serviceHealthy p"
  shows "serviceHealthy (fst (on_tick E timeout service startTime t0 p s))
       \<and> healthTime (fst (on_tick E timeout service startTime t0 p s)) = healthTime p"
proof -
  let ?c = "poll_consul E service startTime
     (p\<lparr>nextTick := t0 + tickInterval * ((clock s - t0) div tickInterval + 1), iter := Suc (iter p)\<rparr>, s)"
  have h: "serviceHealthy (fst ?c)" and t: "healthTime (fst ?c) = healthTime p"
    using assms by (simp_all add: poll_consul_ticks)
  have "poll_health E timeout service startTime ?c = ?c"
    using poll_health_flag(1) [OF h, of E timeout service startTime "snd ?c"] by simp
  with h t show ?thesis by (simp add: on_tick_def)
qed

lemma on_tick_consul:
  assumes "\<not> consulReady p"
  shows "consulReady (fst (on_tick E timeout service startTime t0 p s))
           = fst (isConsulServiceHealthy E (ConsulKey service) s)
       \<and> (consulReady (fst (on_tick E timeout service startTime t0 p s)) \<longrightarrow>
            consulTime (fst (on_tick E timeout service startTime t0 p s))
              = Seconds (Since startTime
                   (clock (snd (isConsulServiceHealthy E (ConsulKey service) s)))))"
proof -
  let ?q = "p\<lparr>nextTick := t0 + tickInterval * ((clock s - t0) div tickInterval + 1),
              iter := Suc (iter p)\<rparr>"
  have "\<not> consulReady ?q" using assms by simp
  from poll_consul_flag(2) [OF this, of E service startTime s] show ?thesis
    by (simp add: on_tick_def poll_health_ticks)
qed

lemma on_tick_registry_state:
  "snd (poll_consul E service startTime
          (p\<lparr>nextTick := n, iter := k\<rparr>, s)) = after_registry E service p s"
  by (simp add: poll_consul_def after_registry_def Let_def split: prod.splits)

lemma on_tick_health:
  assumes "\<not> serviceHealthy p"
  shows "serviceHealthy (fst (on_tick E timeout service startTime t0 p s))
           = fst (isServiceHealthy E timeout (HealthURL service) (after_registry E service p s))
       \<and> (serviceHealthy (fst (on_tick E timeout service startTime t0 p s)) \<longrightarrow>
            healthTime (fst (on_tick E timeout service startTime t0 p s))
              = Seconds (Since startTime
                   (clock (snd (isServiceHealthy E timeout (HealthURL service)
                                  (after_registry E service p s))))))"
proof -
  define c where "c = poll_consul E service startTime
     (p\<lparr>nextTick := t0 + tickInterval * ((clock s - t0) div tickInterval + 1), iter := Suc (iter p)\<rparr>, s)"
  have h: "\<not> serviceHealthy (fst c)"
    using assms by (simp add: c_def poll_consul_ticks)
  have s: "snd c = after_registry E service p s"
    unfolding c_def by (rule on_tick_registry_state)
  have c: "(fst c, after_registry E service p s) = c"
    using s by (cases c) simp
  from poll_health_flag(2) [OF h, of E timeout service startTime "after_registry E service p s"]
  show ?thesis
    unfolding on_tick_def c_def [symmetric] c .
qed

lemma on_tick_state:
  "snd (on_tick E timeout service startTime t0 p s)
   = (if serviceHealthy p then after_registry E service p s
      else snd (isServiceHealthy E timeout (HealthURL service) (after_registry E service p s)))"
proof -
  define c where "c = poll_consul E service startTime
     (p\<lparr>nextTick := t0 + tickInterval * ((clock s - t0) div tickInterval + 1), iter := Suc (iter p)\<rparr>, s)"
  have h: "serviceHealthy (fst c) = serviceHealthy p"
    by (simp add: c_def poll_consul_ticks)
  have s: "snd c = after_registry E service p s"
    unfolding c_def by (rule on_tick_registry_state)
  have "snd (poll_health E timeout service startTime c)
      = (if serviceHealthy (fst c) then snd c
         else snd (isServiceHealthy E timeout (HealthURL service) (snd c)))"
    by (cases c) (simp add: poll_health_def Let_def split: prod.splits)
  then show ?thesis
    unfolding on_tick_def c_def [symmetric] by (simp only: h s)
qed

lemma health_late_fail:
  assumes "clock st < 125000000000"
  shows "isServiceHealthy E_late healthTimeout_S ''http://weather.localhost/health'' st
   = (False, advance 20000000 (emit (EvHttpGet ''http://weather.localhost/health'') st))"
  using assms
  by (simp add: isServiceHealthy_def client_Get_def E_late_def E_up_def Let_def
      healthTimeout_S_def Second_def)

lemma health_late_pass:
  assumes "125000000000 \<le> clock st"
  shows "isServiceHealthy E_late healthTimeout_S ''http://weather.localhost/health'' st
   = (True, advance 4000000000 (emit (EvHttpGet ''http://weather.localhost/health'') st))"
  using assms
  by (simp add: isServiceHealthy_def client_Get_def E_late_def E_up_def Let_def
      healthTimeout_S_def Second_def passing_body_def)

lemma consul_late:
  "isConsulServiceHealthy E_late ''weather'' st
   = (True, advance 20000000 (emit (EvHttpGet (consul_checks_url ''weather'')) st))"
  by (simp add: isConsulServiceHealthy_def E_late_def E_up_def passing_body_def Let_def
      consul_checks_url_def)

lemma run_cmd_late:
  "run_cmd E_late argv dir st
   = (True, advance 3000000000 (emit (EvRun argv dir (clock st) (clock st + 3000000000)) st))"
  by (simp add: run_cmd_def E_late_def E_up_def Let_def)

lemma chdir_late: "chdir E_late d st = (True, (emit (EvChdir d) st)\<lparr>cwd := d\<rparr>)"
  by (simp add: chdir_def E_late_def E_up_def)

lemma tick_after:
  "t0 + tickInterval * ((t0 + k * tickInterval - t0) div tickInterval + 1)
   = t0 + (k + 1) * tickInterval"
  using tickInterval_pos by simp

lemma answers_late: "\<not> registry_hangs E_late service p st"
  by (simp add: registry_hangs_def E_late_def E_up_def)

lemma waitReady_tick:
  assumes "select_wait t0 p st = st1" and "\<not> takes_timeout E t0 p st1"
    and "on_tick E timeout service startTime t0 p st1 = (p', st')"
    and "\<not> registry_hangs E service p st1"
  shows "waitReady E timeout service startTime t0 p st
       = (if consulReady p' \<and> serviceHealthy p' then Some (Some p', st')
          else waitReady E timeout service startTime t0 p' st')"
  by (subst waitReady.simps) (simp add: assms)

text \<open>The first tick: the registry passes, the health probe fails.\<close>

lemma late_first_tick:
  assumes "clock st = 6000000000"
  shows "\<exists>st'. clock st' \<le> 6000000000 + 2 * tickInterval
     \<and> waitReady E_late healthTimeout_S weather 3000000000 6000000000 (poll_init 6000000000) st
       = waitReady E_late healthTimeout_S weather 3000000000 6000000000 (late_poll 1) st'"
proof -
  have w: "select_wait 6000000000 (poll_init 6000000000) st = st\<lparr>clock := 7000000000\<rparr>"
    using assms
    by (simp add: select_wait_def poll_init_def tickInterval_def readyTimeout_def Minute_def Second_def)
  have nt: "\<not> takes_timeout E_late 6000000000 (poll_init 6000000000) (st\<lparr>clock := 7000000000\<rparr>)"
    by (simp add: takes_timeout_def readyTimeout_def Minute_def Second_def)
  have t: "on_tick E_late healthTimeout_S weather 3000000000 6000000000 (poll_init 6000000000)
             (st\<lparr>clock := 7000000000\<rparr>)
    = (late_poll 1,
       st\<lparr>clock := 7040000000,
          trace := trace st @ [EvHttpGet (consul_checks_url ''weather''),
                               EvHttpGet ''http://weather.localhost/health'']\<rparr>)"
    by (simp add: on_tick_def poll_consul_def poll_health_def consul_late health_late_fail Let_def
        poll_init_def late_poll_def tickInterval_def Second_def advance_def emit_def weather_def
        Seconds_def Since_def)
  have f: "\<not> serviceHealthy (late_poll (Suc 0))"
    by (simp add: late_poll_def)
  show ?thesis
    unfolding waitReady_tick [OF w nt t answers_late]
    by (intro exI [of _ "st\<lparr>clock := 7040000000,
          trace := trace st @ [EvHttpGet (consul_checks_url ''weather''),
                               EvHttpGet ''http://weather.localhost/health'']\<rparr>"])
       (simp add: f tickInterval_def Second_def)
qed

text \<open>A later tick before 125 seconds: the health probe fails again.\<close>

lemma late_failing_tick:
  assumes "clock st \<le> 6000000000 + (i + 1) * tickInterval" and "i < 118"
  shows "\<exists>st'. clock st' \<le> 6000000000 + (Suc i + 1) * tickInterval
     \<and> waitReady E_late healthTimeout_S weather 3000000000 6000000000 (late_poll i) st
       = waitReady E_late healthTimeout_S weather 3000000000 6000000000 (late_poll (Suc i)) st'"
proof -
  let ?now = "6000000000 + (i + 1) * tickInterval"
  have w: "select_wait 6000000000 (late_poll i) st = st\<lparr>clock := ?now\<rparr>"
    using assms
    by (simp add: select_wait_def late_poll_def tickInterval_def readyTimeout_def Minute_def
        Second_def max_def min_def)
  have nt: "\<not> takes_timeout E_late 6000000000 (late_poll i) (st\<lparr>clock := ?now\<rparr>)"
    using assms(2)
    by (simp add: takes_timeout_def readyTimeout_def Minute_def Second_def tickInterval_def)
  have early: "clock (st\<lparr>clock := ?now\<rparr>) < 125000000000"
    using assms(2) by (simp add: tickInterval_def Second_def)
  have t: "on_tick E_late healthTimeout_S weather 3000000000 6000000000 (late_poll i)
             (st\<lparr>clock := ?now\<rparr>)
    = (late_poll (Suc i),
       advance 20000000 (emit (EvHttpGet ''http://weather.localhost/health'') (st\<lparr>clock := ?now\<rparr>)))"
    using health_late_fail [OF early]
    by (simp add: on_tick_def poll_consul_def poll_health_def Let_def late_poll_def weather_def
        tick_after)
  have c: "clock (advance 20000000 (emit (EvHttpGet ''http://weather.localhost/health'')
             (st\<lparr>clock := ?now\<rparr>))) \<le> 6000000000 + (Suc i + 1) * tickInterval"
    by (simp add: advance_def emit_def tickInterval_def Second_def)
  have f: "\<not> serviceHealthy (late_poll (Suc i))"
    by (simp add: late_poll_def)
  have "waitReady E_late healthTimeout_S weather 3000000000 6000000000 (late_poll i) st
     = waitReady E_late healthTimeout_S weather 3000000000 6000000000 (late_poll (Suc i))
         (advance 20000000 (emit (EvHttpGet ''http://weather.localhost/health'') (st\<lparr>clock := ?now\<rparr>)))"
    unfolding waitReady_tick [OF w nt t answers_late] by (simp add: f)
  with c show ?thesis by blast
qed

lemma late_failing_ticks:
  assumes "clock st \<le> 6000000000 + (i + 1) * tickInterval" and "i + n \<le> 118"
  shows "\<exists>st'. clock st' \<le> 6000000000 + (i + n + 1) * tickInterval
     \<and> waitReady E_late healthTimeout_S weather 3000000000 6000000000 (late_poll i) st
       = waitReady E_late healthTimeout_S weather 3000000000 6000000000 (late_poll (i + n)) st'"
  using assms
proof (induction n arbitrary: i st)
  case 0
  then show ?case by auto
next
  case (Suc n)
  from Suc.prems have "i < 118" by simp
  from late_failing_tick [OF Suc.prems(1) this] obtain st1
    where c1: "clock st1 \<le> 6000000000 + (Suc i + 1) * tickInterval"
      and e1: "waitReady E_late healthTimeout_S weather 3000000000 6000000000 (late_poll i) st
       = waitReady E_late healthTimeout_S weather 3000000000 6000000000 (late_poll (Suc i)) st1"
    by blast
  from Suc.prems have "Suc i + n \<le> 118" by simp
  from Suc.IH [OF c1 this] obtain st'
    where "clock st' \<le> 6000000000 + (Suc i + n + 1) * tickInterval"
      and "waitReady E_late healthTimeout_S weather 3000000000 6000000000 (late_poll (Suc i)) st1
       = waitReady E_late healthTimeout_S weather 3000000000 6000000000 (late_poll (Suc i + n)) st'"
    by blast
  with e1 show ?case by (intro exI [of _ st']) simp
qed

text \<open>The tick at 125 seconds: the health probe passes at 129 seconds.\<close>

lemma late_last_tick:
  assumes "clock st \<le> 6000000000 + 119 * tickInterval"
  shows "\<exists>p st'. waitReady E_late healthTimeout_S weather 3000000000 6000000000 (late_poll 118) st
       = Some (Some p, st')
     \<and> consulReady p \<and> consulTime p = 201 / 50 \<and> healthTime p = 126 \<and> clock st' = 129000000000"
proof -
  let ?now = "125000000000"
  have w: "select_wait 6000000000 (late_poll 118) st = st\<lparr>clock := ?now\<rparr>"
    using assms
    by (simp add: select_wait_def late_poll_def tickInterval_def readyTimeout_def Minute_def
        Second_def max_def min_def)
  have nt: "\<not> takes_timeout E_late 6000000000 (late_poll 118) (st\<lparr>clock := ?now\<rparr>)"
    by (simp add: takes_timeout_def readyTimeout_def Minute_def Second_def tickInterval_def)
  have late: "125000000000 \<le> clock (st\<lparr>clock := ?now\<rparr>)"
    by simp
  have t: "on_tick E_late healthTimeout_S weather 3000000000 6000000000 (late_poll 118)
             (st\<lparr>clock := ?now\<rparr>)
    = ((late_poll 118)\<lparr>nextTick := 126000000000, iter := 119, serviceHealthy := True,
                        healthTime := 126\<rparr>,
       advance 4000000000 (emit (EvHttpGet ''http://weather.localhost/health'') (st\<lparr>clock := ?now\<rparr>)))"
    using health_late_pass [OF late]
    by (simp add: on_tick_def poll_consul_def poll_health_def Let_def late_poll_def weather_def
        tickInterval_def Second_def advance_def emit_def Seconds_def Since_def)
  show ?thesis
    unfolding waitReady_tick [OF w nt t answers_late] by (simp add: late_poll_def advance_def emit_def)
qed

lemma waitReady_late:
  assumes "clock st = 6000000000"
  shows "\<exists>p st'. waitReady E_late healthTimeout_S weather 3000000000 6000000000
                   (poll_init 6000000000) st = Some (Some p, st')
     \<and> consulReady p \<and> consulTime p = 201 / 50 \<and> healthTime p = 126 \<and> clock st' = 129000000000"
proof -
  from late_first_tick [OF assms] obtain st1
    where c1: "clock st1 \<le> 6000000000 + 2 * tickInterval"
      and e1: "waitReady E_late healthTimeout_S weather 3000000000 6000000000 (poll_init 6000000000) st
       = waitReady E_late healthTimeout_S weather 3000000000 6000000000 (late_poll 1) st1"
    by blast
  from c1 have c1': "clock st1 \<le> 6000000000 + (1 + 1) * tickInterval" by simp
  have "\<exists>st'. clock st' \<le> 6000000000 + (1 + 117 + 1) * tickInterval
     \<and> waitReady E_late healthTimeout_S weather 3000000000 6000000000 (late_poll 1) st1
       = waitReady E_late healthTimeout_S weather 3000000000 6000000000 (late_poll (1 + 117)) st'"
    by (rule late_failing_ticks [OF c1']) simp
  then obtain st2
    where c2: "clock st2 \<le> 6000000000 + 119 * tickInterval"
      and e2: "waitReady E_late healthTimeout_S weather 3000000000 6000000000 (late_poll 1) st1
       = waitReady E_late healthTimeout_S weather 3000000000 6000000000 (late_poll 118) st2"
    by auto
  from late_last_tick [OF c2] show ?thesis unfolding e1 e2 .
qed

lemma measure_S_late:
  "map_option fst (measureDetailedStartupTime_S E_late weather weather_dir st_up)
   = Some (Inr \<lparr>totalStartupTime = 126, consulCheckTime = 201 / 50, healthCheckTime = 126,
                consulPassed = True, containerStartTime = 3\<rparr>)"
proof -
  define st3 where "st3 = advance 3000000000 (emit (EvRun compose_up [] 3000000000 6000000000)
     (emit (EvNow 3000000000) (advance 3000000000 (emit (EvRun compose_down [] 0 3000000000)
        ((emit (EvChdir weather_dir) st_up)\<lparr>cwd := weather_dir\<rparr>)))))"
  have c3: "clock st3 = 6000000000"
    by (simp add: st3_def advance_def emit_def st_up_def)
  from waitReady_late [OF c3] obtain p st'
    where w: "waitReady E_late healthTimeout_S weather 3000000000 6000000000
                   (poll_init 6000000000) st3 = Some (Some p, st')"
     and p: "consulReady p" "consulTime p = 201 / 50" "healthTime p = 126"
     and c: "clock st' = 129000000000"
    by blast
  have d: "run_cmd E_late compose_down [] ((emit (EvChdir weather_dir) st_up)\<lparr>cwd := weather_dir\<rparr>)
      = (True, advance 3000000000 (emit (EvRun compose_down [] 0 3000000000)
        ((emit (EvChdir weather_dir) st_up)\<lparr>cwd := weather_dir\<rparr>)))"
    by (simp add: run_cmd_late emit_def st_up_def)
  have c2: "clock (advance 3000000000 (emit (EvRun compose_down [] 0 3000000000)
        ((emit (EvChdir weather_dir) st_up)\<lparr>cwd := weather_dir\<rparr>))) = 3000000000"
    by (simp add: advance_def emit_def st_up_def)
  have u: "run_cmd E_late compose_up [] (emit (EvNow 3000000000)
        (advance 3000000000 (emit (EvRun compose_down [] 0 3000000000)
        ((emit (EvChdir weather_dir) st_up)\<lparr>cwd := weather_dir\<rparr>)))) = (True, st3)"
    by (simp add: run_cmd_late st3_def advance_def emit_def st_up_def)
  show ?thesis
    by (simp add: measureDetailedStartupTime_S_def chdir_late d c2 u c3 w p c Let_def
        Seconds_def Since_def)
qed

text \<open>
  The registry probe is \<^verbatim>\<open>http.Get\<close>, the default client, which has no timeout (the
  health probe has a client of its own, with one). When the registry never answers the
  query of the first tick, the loop is inside that call for ever: the timeout channel
  fires, and nobody is in the \<^verbatim>\<open>select\<close> to receive from it.
\<close>

lemma registry_never_answers:
  assumes "clock st = t0"
    and "NeverReturns E (t0 + tickInterval) (consul_checks_url (ConsulKey service))"
  shows "waitReady E timeout service startTime t0 (poll_init t0) st = None"
proof -
  have w: "select_wait t0 (poll_init t0) st = st\<lparr>clock := t0 + tickInterval\<rparr>"
    using assms(1)
    by (simp add: select_wait_def poll_init_def tickInterval_def readyTimeout_def Minute_def Second_def)
  have nt: "\<not> takes_timeout E t0 (poll_init t0) (st\<lparr>clock := t0 + tickInterval\<rparr>)"
    by (simp add: takes_timeout_def readyTimeout_def tickInterval_def Minute_def Second_def)
  have h: "registry_hangs E service (poll_init t0) (st\<lparr>clock := t0 + tickInterval\<rparr>)"
    using assms(2) by (simp add: registry_hangs_def poll_init_def)
  show ?thesis
    by (rule waitReady_hangs) (simp_all add: w nt h)
qed

lemma run_cmd_mute:
  "run_cmd E_mute argv dir st
   = (True, advance 3000000000 (emit (EvRun argv dir (clock st) (clock st + 3000000000)) st))"
  by (simp add: run_cmd_def E_mute_def E_up_def Let_def)

lemma chdir_mute: "chdir E_mute d st = (True, (emit (EvChdir d) st)\<lparr>cwd := d\<rparr>)"
  by (simp add: chdir_def E_mute_def E_up_def)

lemma mute_never_answers:
  "NeverReturns E_mute t (consul_checks_url (ConsulKey weather))"
  by (simp add: E_mute_def E_up_def weather_def)

lemma measure_mute:
  "measureDetailedStartupTime_S E_mute weather weather_dir st_up = None"
  "measureDetailedStartupTime_F E_mute weather weather_dir st_up = None"
  by (simp_all add: measureDetailedStartupTime_S_def measureDetailedStartupTime_F_def
      chdir_mute run_cmd_mute sleep_def Let_def
      registry_never_answers [OF refl mute_never_answers])

text \<open>
  Claim C2 as stated says that the cycle returns the timeout error once the two-minute
  window elapses before both flags are true. In the world \<open>E_late\<close> every probe answers
  within its timeout. The loop of the startup-time harness starts 3 seconds after
  \<open>startTime\<close>, so its window ends 123 seconds after \<open>startTime\<close>, and the health flag
  is still false then; the health probe of the tick one second before the end of the
  window returns 200 after 4 seconds, and the measurement succeeds, with a
  \<open>healthCheckTime\<close> of 126 seconds.
\<close>

theorem late_success_counterexample:
  "map_option fst (measureDetailedStartupTime_S E_late weather weather_dir st_up)
     = Some (Inr \<lparr>totalStartupTime = 126, consulCheckTime = 201 / 50,
                  healthCheckTime = 126, consulPassed = True, containerStartTime = 3\<rparr>)
   \<and> (3 :: real) + Seconds (int readyTimeout) < 126"
  by (simp add: measure_S_late Seconds_def readyTimeout_def Minute_def Second_def)

text \<open>
  Claim C2, as amended. In a run where every checks query that the registry receives
  for the service returns (the query is \<^verbatim>\<open>http.Get\<close>, with no timeout; a run where one
  does not return is outside this statement), one readiness cycle (the polling loop of
  \<open>measureDetailedStartupTime\<close>, in both harnesses) returns, and with one of two
  outcomes: the success return, where both flags are true, or the timeout error, where
  the two-minute deadline has been reached; \<open>measureDetailedStartupTime\<close> then returns
  in both harnesses. It is assumed that the runtime's choice between two ready cases of
  the \<^verbatim>\<open>select\<close> takes the timeout case at some select from the 120th on (a fair choice
  does). The deadline is looked at only between ticks. One turn of the loop from any
  loop state: when the \<^verbatim>\<open>select\<close> takes the timeout case the loop returns the timeout
  error; otherwise it takes the tick, and returns the success right after the tick if
  both flags are true then (also when the probes of that tick ended after the
  deadline), and goes round again if not. On a tick, a flag that is true is not polled
  again and keeps its time. A registry flag that is false is set to what the registry
  probe returns at the tick. A health flag that is false is set to what the health probe
  returns, called when the registry part of the tick is over, whether the registry
  flag is true or false. The time recorded when a flag turns true is the time elapsed
  since \<open>startTime\<close> when that probe returned. The probes of a tick are exactly those of
  the flags that were false.
\<close>

theorem readiness_cycle:
  assumes "\<forall>t0. \<exists>k\<ge>119. Pick E t0 k"
    and "\<forall>t. \<not> NeverReturns E t (consul_checks_url (ConsulKey service))"
  shows
    "(\<exists>r st'. waitReady E timeout service startTime t0 (poll_init t0) st = Some (r, st')
        \<and> (case r of
              None \<Rightarrow> t0 + readyTimeout \<le> clock st'
            | Some q \<Rightarrow> consulReady q \<and> serviceHealthy q))
     \<and> (\<exists>y. measureDetailedStartupTime_F E service dir st = Some y)
     \<and> (\<exists>y. measureDetailedStartupTime_S E service dir st = Some y)
     \<and> (\<forall>p s. takes_timeout E t0 p (select_wait t0 p s)
          \<longrightarrow> waitReady E timeout service startTime t0 p s = Some (None, select_wait t0 p s))
     \<and> (\<forall>p s. \<not> takes_timeout E t0 p (select_wait t0 p s)
          \<longrightarrow> waitReady E timeout service startTime t0 p s
                = (if consulReady (fst (on_tick E timeout service startTime t0 p (select_wait t0 p s)))
                      \<and> serviceHealthy (fst (on_tick E timeout service startTime t0 p (select_wait t0 p s)))
                   then Some (Some (fst (on_tick E timeout service startTime t0 p (select_wait t0 p s))),
                              snd (on_tick E timeout service startTime t0 p (select_wait t0 p s)))
                   else waitReady E timeout service startTime t0
                          (fst (on_tick E timeout service startTime t0 p (select_wait t0 p s)))
                          (snd (on_tick E timeout service startTime t0 p (select_wait t0 p s)))))
     \<and> (\<forall>p s. consulReady p \<longrightarrow>
            consulReady (fst (on_tick E timeout service startTime t0 p s))
            \<and> consulTime (fst (on_tick E timeout service startTime t0 p s)) = consulTime p)
     \<and> (\<forall>p s. serviceHealthy p \<longrightarrow>
            serviceHealthy (fst (on_tick E timeout service startTime t0 p s))
            \<and> healthTime (fst (on_tick E timeout service startTime t0 p s)) = healthTime p)
     \<and> (\<forall>p s. \<not> consulReady p \<longrightarrow>
            consulReady (fst (on_tick E timeout service startTime t0 p s))
              = fst (isConsulServiceHealthy E (ConsulKey service) s)
            \<and> (consulReady (fst (on_tick E timeout service startTime t0 p s)) \<longrightarrow>
                 consulTime (fst (on_tick E timeout service startTime t0 p s))
                   = Seconds (Since startTime
                        (clock (snd (isConsulServiceHealthy E (ConsulKey service) s))))))
     \<and> (\<forall>p s. \<not> serviceHealthy p \<longrightarrow>
            serviceHealthy (fst (on_tick E timeout service startTime t0 p s))
              = fst (isServiceHealthy E timeout (HealthURL service) (after_registry E service p s))
            \<and> (serviceHealthy (fst (on_tick E timeout service startTime t0 p s)) \<longrightarrow>
                 healthTime (fst (on_tick E timeout service startTime t0 p s))
                   = Seconds (Since startTime
                        (clock (snd (isServiceHealthy E timeout (HealthURL service)
                                       (after_registry E service p s)))))))
     \<and> (\<forall>p s. snd (on_tick E timeout service startTime t0 p s)
            = (if serviceHealthy p then after_registry E service p s
               else snd (isServiceHealthy E timeout (HealthURL service)
                           (after_registry E service p s))))"
proof -
  note ans = assms(2)
  from assms have fair: "\<exists>k\<ge>119. Pick E t0 k" by simp
  from waitReady_total [OF fair ans] obtain r st'
    where w: "waitReady E timeout service startTime t0 (poll_init t0) st = Some (r, st')"
    by blast
  from waitReady_post [OF w]
  have "case r of None \<Rightarrow> t0 + readyTimeout \<le> clock st' | Some q \<Rightarrow> consulReady q \<and> serviceHealthy q"
    by (auto split: option.splits)
  with w have 1: "\<exists>r st'. waitReady E timeout service startTime t0 (poll_init t0) st = Some (r, st')
        \<and> (case r of
              None \<Rightarrow> t0 + readyTimeout \<le> clock st'
            | Some q \<Rightarrow> consulReady q \<and> serviceHealthy q)"
    by blast
  have 2: "\<exists>y. measureDetailedStartupTime_F E service dir st = Some y"
    by (rule measure_F_total [OF assms])
  have 3: "\<exists>y. measureDetailedStartupTime_S E service dir st = Some y"
    by (rule measure_S_total [OF assms])
  have 4: "\<forall>p s. takes_timeout E t0 p (select_wait t0 p s)
          \<longrightarrow> waitReady E timeout service startTime t0 p s = Some (None, select_wait t0 p s)"
    by (intro allI impI) (rule waitReady_timeout_now)
  have 5: "\<forall>p s. \<not> takes_timeout E t0 p (select_wait t0 p s)
          \<longrightarrow> waitReady E timeout service startTime t0 p s
                = (if consulReady (fst (on_tick E timeout service startTime t0 p (select_wait t0 p s)))
                      \<and> serviceHealthy (fst (on_tick E timeout service startTime t0 p (select_wait t0 p s)))
                   then Some (Some (fst (on_tick E timeout service startTime t0 p (select_wait t0 p s))),
                              snd (on_tick E timeout service startTime t0 p (select_wait t0 p s)))
                   else waitReady E timeout service startTime t0
                          (fst (on_tick E timeout service startTime t0 p (select_wait t0 p s)))
                          (snd (on_tick E timeout service startTime t0 p (select_wait t0 p s))))"
    by (intro allI impI) (rule waitReady_step [OF _ no_hang [OF ans]])
  have 6: "\<forall>p s. consulReady p \<longrightarrow>
            consulReady (fst (on_tick E timeout service startTime t0 p s))
            \<and> consulTime (fst (on_tick E timeout service startTime t0 p s)) = consulTime p"
    by (intro allI impI) (rule on_tick_keeps_consul)
  have 7: "\<forall>p s. serviceHealthy p \<longrightarrow>
            serviceHealthy (fst (on_tick E timeout service startTime t0 p s))
            \<and> healthTime (fst (on_tick E timeout service startTime t0 p s)) = healthTime p"
    by (intro allI impI) (rule on_tick_keeps_health)
  have 8: "\<forall>p s. \<not> consulReady p \<longrightarrow>
            consulReady (fst (on_tick E timeout service startTime t0 p s))
              = fst (isConsulServiceHealthy E (ConsulKey service) s)
            \<and> (consulReady (fst (on_tick E timeout service startTime t0 p s)) \<longrightarrow>
                 consulTime (fst (on_tick E timeout service startTime t0 p s))
                   = Seconds (Since startTime
                        (clock (snd (isConsulServiceHealthy E (ConsulKey service) s)))))"
    by (intro allI impI) (rule on_tick_consul)
  have 9: "\<forall>p s. \<not> serviceHealthy p \<longrightarrow>
            serviceHealthy (fst (on_tick E timeout service startTime t0 p s))
              = fst (isServiceHealthy E timeout (HealthURL service) (after_registry E service p s))
            \<and> (serviceHealthy (fst (on_tick E timeout service startTime t0 p s)) \<longrightarrow>
                 healthTime (fst (on_tick E timeout service startTime t0 p s))
                   = Seconds (Since startTime
                        (clock (snd (isServiceHealthy E timeout (HealthURL service)
                                       (after_registry E service p s))))))"
    by (intro allI impI) (rule on_tick_health)
  have 10: "\<forall>p s. snd (on_tick E timeout service startTime t0 p s)
            = (if serviceHealthy p then after_registry E service p s
               else snd (isServiceHealthy E timeout (HealthURL service)
                           (after_registry E service p s)))"
    by (intro allI) (rule on_tick_state)
  from 1 2 3 4 5 6 7 8 9 10 show ?thesis by (intro conjI)
qed

text \<open>
  The witness: in the world \<open>E_up\<close> both hypotheses hold; the loop returns the success
  at its first tick, the registry probe of that tick being followed by the health probe.
\<close>

theorem readiness_cycle_witness:
  "(\<forall>t0. \<exists>k\<ge>119. Pick E_up t0 k)
   \<and> (\<forall>t. \<not> NeverReturns E_up t (consul_checks_url (ConsulKey weather)))
   \<and> (\<exists>r st'. waitReady E_up healthTimeout_F weather 0 0 (poll_init 0) st_up = Some (r, st')
         \<and> (case r of
               None \<Rightarrow> 0 + readyTimeout \<le> clock st'
             | Some q \<Rightarrow> consulReady q \<and> serviceHealthy q))
   \<and> (\<exists>y. measureDetailedStartupTime_F E_up weather weather_dir st_up = Some y)
   \<and> (\<exists>y. measureDetailedStartupTime_S E_up weather weather_dir st_up = Some y)
   \<and> \<not> takes_timeout E_up 0 (poll_init 0) (select_wait 0 (poll_init 0) st_up)
   \<and> \<not> consulReady (poll_init 0) \<and> \<not> serviceHealthy (poll_init 0)
   \<and> consulReady (fst (on_tick E_up healthTimeout_F weather 0 0 (poll_init 0)
                         (select_wait 0 (poll_init 0) st_up)))
   \<and> serviceHealthy (fst (on_tick E_up healthTimeout_F weather 0 0 (poll_init 0)
                            (select_wait 0 (poll_init 0) st_up)))
   \<and> clock (snd (on_tick E_up healthTimeout_F weather 0 0 (poll_init 0)
                    (select_wait 0 (poll_init 0) st_up))) = 1040000000
   \<and> waitReady E_up healthTimeout_F weather 0 0 (poll_init 0) st_up
       = Some (Some (fst (on_tick E_up healthTimeout_F weather 0 0 (poll_init 0)
                            (select_wait 0 (poll_init 0) st_up))),
               snd (on_tick E_up healthTimeout_F weather 0 0 (poll_init 0)
                            (select_wait 0 (poll_init 0) st_up)))"
proof -
  have fair: "\<forall>t0. \<exists>k\<ge>119. Pick E_up t0 k"
    by (auto simp: E_up_def)
  have ans: "\<forall>t. \<not> NeverReturns E_up t (consul_checks_url (ConsulKey weather))"
    by (simp add: E_up_def)
  note r = readiness_cycle [OF fair ans, where timeout = healthTimeout_F
      and startTime = 0 and ?t0.0 = 0 and st = st_up and dir = weather_dir]
  note a = conjunct1 [OF r]
  note b = conjunct1 [OF conjunct2 [OF r]]
  note c = conjunct1 [OF conjunct2 [OF conjunct2 [OF r]]]
  note r5 = conjunct1 [OF conjunct2 [OF conjunct2 [OF conjunct2 [OF conjunct2 [OF r]]]]]
  note r8 = conjunct1 [OF conjunct2 [OF conjunct2 [OF conjunct2 [OF conjunct2
              [OF conjunct2 [OF conjunct2 [OF conjunct2 [OF r]]]]]]]]
  note r9 = conjunct1 [OF conjunct2 [OF conjunct2 [OF conjunct2 [OF conjunct2
              [OF conjunct2 [OF conjunct2 [OF conjunct2 [OF conjunct2 [OF r]]]]]]]]]
  note r10 = conjunct2 [OF conjunct2 [OF conjunct2 [OF conjunct2 [OF conjunct2
              [OF conjunct2 [OF conjunct2 [OF conjunct2 [OF conjunct2 [OF r]]]]]]]]]
  define s1 where "s1 = select_wait 0 (poll_init 0) st_up"
  have c1: "clock s1 = 1000000000"
    by (simp add: s1_def select_wait_def poll_init_def st_up_def
        readyTimeout_def tickInterval_def Minute_def Second_def)
  have i: "\<not> consulReady (poll_init 0)" "\<not> serviceHealthy (poll_init 0)"
    by (simp_all add: poll_init_def)
  have to: "20000000 < healthTimeout_F" by (simp add: healthTimeout_F_def Second_def)
  have ar: "after_registry E_up weather (poll_init 0) s1
      = advance 20000000 (emit (EvHttpGet (consul_checks_url (ConsulKey weather))) s1)"
    by (simp add: after_registry_def i consul_up)
  have cr: "consulReady (fst (on_tick E_up healthTimeout_F weather 0 0 (poll_init 0) s1))"
    using r8 [rule_format, OF i(1), of s1] by (simp add: consul_up)
  have sh: "serviceHealthy (fst (on_tick E_up healthTimeout_F weather 0 0 (poll_init 0) s1))"
    using r9 [rule_format, OF i(2), of s1] by (simp add: ar health_up [OF to])
  have cl: "clock (snd (on_tick E_up healthTimeout_F weather 0 0 (poll_init 0) s1)) = 1040000000"
    using r10 [rule_format, of "poll_init 0" s1]
    by (simp add: i ar health_up [OF to] advance_def emit_def c1)
  have nt: "\<not> takes_timeout E_up 0 (poll_init 0) s1"
    by (simp add: takes_timeout_def c1 poll_init_def
        readyTimeout_def tickInterval_def Minute_def Second_def)
  have st: "waitReady E_up healthTimeout_F weather 0 0 (poll_init 0) st_up
       = Some (Some (fst (on_tick E_up healthTimeout_F weather 0 0 (poll_init 0) s1)),
               snd (on_tick E_up healthTimeout_F weather 0 0 (poll_init 0) s1))"
    using r5 [rule_format, of "poll_init 0" st_up] nt cr sh
    unfolding s1_def [symmetric] by simp
  show ?thesis
    unfolding s1_def [symmetric]
    by (intro conjI) (rule fair ans a b c nt st i cr sh cl)+
qed

text \<open>
  Claim C10. When a startup-time measurement succeeds, \<open>containerStartTime\<close>,
  \<open>consulCheckTime\<close> and \<open>healthCheckTime\<close> are each at least 0 and at most
  \<open>totalStartupTime\<close>, and the returned \<open>consulReady\<close> flag is true.
\<close>

theorem startup_times_consistent:
  assumes "measureDetailedStartupTime_S E service dir st = Some (Inr res, st')"
  shows "0 \<le> containerStartTime res \<and> containerStartTime res \<le> totalStartupTime res
       \<and> 0 \<le> consulCheckTime res \<and> consulCheckTime res \<le> totalStartupTime res
       \<and> 0 \<le> healthCheckTime res \<and> healthCheckTime res \<le> totalStartupTime res
       \<and> consulPassed res"
proof -
  obtain ok st1 where c: "chdir E dir st = (ok, st1)" by (cases "chdir E dir st")
  obtain ok_down st2 where d: "run_cmd E compose_down [] st1 = (ok_down, st2)"
    by (cases "run_cmd E compose_down [] st1")
  obtain ok_up st3 where u: "run_cmd E compose_up [] (emit (EvNow (clock st2)) st2) = (ok_up, st3)"
    by (cases "run_cmd E compose_up [] (emit (EvNow (clock st2)) st2)")
  from assms c d u obtain p st4
    where w: "waitReady E healthTimeout_S service (clock st2) (clock st3) (poll_init (clock st3)) st3
               = Some (Some p, st4)"
      and res: "res = \<lparr>totalStartupTime = Seconds (Since (clock st2) (clock st4)),
                       consulCheckTime = consulTime p, healthCheckTime = healthTime p,
                       consulPassed = consulReady p,
                       containerStartTime = Seconds (Since (clock st2) (clock st3))\<rparr>"
    by (auto simp: measureDetailedStartupTime_S_def Let_def bind_eq_Some_conv
             split: if_splits option.splits)
  have le: "clock st2 \<le> clock st3"
    using u by (auto simp: run_cmd_def Let_def advance_def emit_def split: prod.splits)
  then have ok0: "times_ok (clock st2) (poll_init (clock st3)) st3"
    by (simp add: times_ok_def poll_init_def Seconds_Since_nonneg)
  from waitReady_post [OF w] ok0
  have g: "only_gets st3 st4" and r: "consulReady p" and t: "times_ok (clock st2) p st4"
    by simp_all
  from g have "clock st3 \<le> clock st4" by (rule only_gets_clock)
  then have "Seconds (Since (clock st2) (clock st3)) \<le> Seconds (Since (clock st2) (clock st4))"
    by (rule Seconds_Since_mono)
  with t r le show ?thesis
    by (simp add: res times_ok_def Seconds_Since_nonneg)
qed

theorem startup_times_consistent_witness:
  "measureDetailedStartupTime_S E_up weather weather_dir st_up
     = Some (Inr \<lparr>totalStartupTime = 101 / 25, consulCheckTime = 201 / 50,
                  healthCheckTime = 101 / 25, consulPassed = True, containerStartTime = 3\<rparr>,
             st_up\<lparr>clock := 7040000000,
               trace := [EvChdir weather_dir,
                         EvRun compose_down [] 0 3000000000,
                         EvNow 3000000000,
                         EvRun compose_up [] 3000000000 6000000000,
                         EvHttpGet (consul_checks_url ''weather''),
                         EvHttpGet ''http://weather.localhost/health'',
                         EvChdir ''/repo/Testing/Failure'']\<rparr>)
   \<and> (0::real) \<le> 3 \<and> (3::real) \<le> 101 / 25 \<and> (0::real) \<le> 201 / 50
   \<and> (201 / 50 :: real) \<le> 101 / 25"
  using startup_times_consistent [OF measure_S_up] measure_S_up
  by simp

subsection \<open>Run orchestrator\<close>


lemma preflight_fails:
  assumes "fst (HttpGet E (clock st) consul_leader_url) = ReqErr
         \<or> (\<exists>code body. fst (HttpGet E (clock st) consul_leader_url) = Resp code body \<and> code \<noteq> 200)"
  shows "\<not> fst (preflight E st)"
    and "trace (snd (preflight E st)) = trace st @ [EvHttpGet consul_leader_url]"
  using assms
  by (auto simp: preflight_def Let_def advance_def emit_def split: prod.splits http_result.splits)

text \<open>
  Claim C7. If the pre-flight query of the registry fails or answers with a status
  other than 200, the harness (either one) exits with status 1 and has done nothing but
  read the working directory and issue that query: no directory walk, no lifecycle
  command, no report file, no trial.
\<close>

theorem preflight_failure_fatal:
  assumes "fst (HttpGet E 0 consul_leader_url) = ReqErr
         \<or> (\<exists>code body. fst (HttpGet E 0 consul_leader_url) = Resp code body \<and> code \<noteq> 200)"
  shows "map_option trace (main_F E) = Some [EvGetwd, EvHttpGet consul_leader_url, EvExit 1]
       \<and> map_option trace (main_S E) = Some [EvGetwd, EvHttpGet consul_leader_url, EvExit 1]"
proof -
  let ?st1 = "getwd E (init_state E)"
  have c: "clock ?st1 = 0" and t: "trace ?st1 = [EvGetwd]"
    by (simp_all add: getwd_def init_state_def emit_def)
  from assms c have a: "fst (HttpGet E (clock ?st1) consul_leader_url) = ReqErr
         \<or> (\<exists>code body. fst (HttpGet E (clock ?st1) consul_leader_url) = Resp code body \<and> code \<noteq> 200)"
    by simp
  obtain ok st2 where p: "preflight E ?st1 = (ok, st2)" by (cases "preflight E ?st1")
  from preflight_fails [OF a] p t have "\<not> ok" and "trace st2 = [EvGetwd, EvHttpGet consul_leader_url]"
    by simp_all
  then show ?thesis
    by (simp add: main_F_def main_S_def Let_def p fatal_def emit_def)
qed

theorem preflight_failure_fatal_witness:
  "fst (HttpGet E_down 0 consul_leader_url) = ReqErr
   \<and> map_option trace (main_F E_down) = Some [EvGetwd, EvHttpGet consul_leader_url, EvExit 1]
   \<and> map_option trace (main_S E_down) = Some [EvGetwd, EvHttpGet consul_leader_url, EvExit 1]
   \<and> fst (HttpGet E_503 0 consul_leader_url) = Resp 503 (Some NotJSON)
   \<and> map_option trace (main_F E_503) = Some [EvGetwd, EvHttpGet consul_leader_url, EvExit 1]
   \<and> map_option trace (main_S E_503) = Some [EvGetwd, EvHttpGet consul_leader_url, EvExit 1]"
  using preflight_failure_fatal [of E_down] preflight_failure_fatal [of E_503]
  by (simp add: E_down_def E_503_def)












subsection \<open>A report that cannot be created\<close>


















subsection \<open>Health probe timeout\<close>

text \<open>
  Claim C5 as stated says that the probe's timeout is shorter than the tick interval in
  both harnesses. It is not, in either.
\<close>

theorem health_timeout_counterexample:
  "\<not> (healthTimeout_F < tickInterval \<and> healthTimeout_S < tickInterval)"
  by (simp add: healthTimeout_F_def healthTimeout_S_def tickInterval_def Second_def)

lemma hung_probe:
  assumes "ValidURL E url" and "timeout \<le> snd (HttpGet E (clock st) url)"
  shows "isServiceHealthy E timeout url st = (False, advance timeout (emit (EvHttpGet url) st))"
  using assms
  by (cases "HttpGet E (clock st) url") (simp add: isServiceHealthy_def client_Get_def Let_def)

text \<open>
  Claim C5, as amended. The health probe's client timeout is one tick interval in the
  failure-recovery harness and five tick intervals in the startup-time harness; a health
  endpoint that does not answer within the timeout makes the probe return false after the
  whole timeout, that is after one tick interval, respectively five.
\<close>

theorem health_timeout_vs_tick:
  "healthTimeout_F = tickInterval \<and> healthTimeout_S = 5 * tickInterval
   \<and> (ValidURL E url \<and> healthTimeout_F \<le> snd (HttpGet E (clock st) url) \<longrightarrow>
        isServiceHealthy E healthTimeout_F url st
          = (False, advance tickInterval (emit (EvHttpGet url) st)))
   \<and> (ValidURL E url \<and> healthTimeout_S \<le> snd (HttpGet E (clock st) url) \<longrightarrow>
        isServiceHealthy E healthTimeout_S url st
          = (False, advance (5 * tickInterval) (emit (EvHttpGet url) st)))"
proof -
  have f: "healthTimeout_F = tickInterval" and s: "healthTimeout_S = 5 * tickInterval"
    by (simp_all add: healthTimeout_F_def healthTimeout_S_def tickInterval_def)
  show ?thesis
    using hung_probe [of E url healthTimeout_F st] hung_probe [of E url healthTimeout_S st]
    by (simp add: f s)
qed

theorem health_timeout_vs_tick_witness:
  "ValidURL E_hung (HealthURL weather)
   \<and> healthTimeout_F \<le> snd (HttpGet E_hung (clock st_up) (HealthURL weather))
   \<and> healthTimeout_S \<le> snd (HttpGet E_hung (clock st_up) (HealthURL weather))
   \<and> clock (snd (isServiceHealthy E_hung healthTimeout_F (HealthURL weather) st_up))
       = clock st_up + tickInterval
   \<and> clock (snd (isServiceHealthy E_hung healthTimeout_S (HealthURL weather) st_up))
       = clock st_up + 5 * tickInterval"
proof -
  have v: "ValidURL E_hung (HealthURL weather)"
    by (simp add: E_hung_def E_up_def)
  have f: "healthTimeout_F \<le> snd (HttpGet E_hung (clock st_up) (HealthURL weather))"
    by (simp add: E_hung_def E_up_def healthTimeout_F_def Second_def)
  have s: "healthTimeout_S \<le> snd (HttpGet E_hung (clock st_up) (HealthURL weather))"
    by (simp add: E_hung_def E_up_def healthTimeout_S_def Second_def)
  note t = health_timeout_vs_tick [of E_hung "HealthURL weather" st_up]
  from t v f have a: "isServiceHealthy E_hung healthTimeout_F (HealthURL weather) st_up
      = (False, advance tickInterval (emit (EvHttpGet (HealthURL weather)) st_up))"
    by blast
  from t v s have b: "isServiceHealthy E_hung healthTimeout_S (HealthURL weather) st_up
      = (False, advance (5 * tickInterval) (emit (EvHttpGet (HealthURL weather)) st_up))"
    by blast
  show ?thesis
    using v f s by (simp add: a b advance_def emit_def)
qed

subsection \<open>The trace of a failure-recovery measurement\<close>

lemma commands_append: "commands (xs @ ys) = commands xs @ commands ys"
  by (induction xs rule: commands.induct) simp_all

lemma chdirs_append: "chdirs (xs @ ys) = chdirs xs @ chdirs ys"
  by (induction xs rule: chdirs.induct) simp_all

lemma start_instants_append: "start_instants (xs @ ys) = start_instants xs @ start_instants ys"
  by (induction xs rule: start_instants.induct) simp_all

lemma gets_silent:
  "list_all is_get gets \<Longrightarrow> commands gets = [] \<and> chdirs gets = [] \<and> start_instants gets = []"
  by (induction gets) (auto simp: is_get_def split: event.splits)

lemma added_append: "trace st' = trace st @ evs \<Longrightarrow> added st st' = evs"
  by (simp add: added_def)

lemma run_cmd_state:
  "\<exists>d. snd (run_cmd E argv dir st)
        = advance d (emit (EvRun argv dir (clock st) (clock st + d)) st)"
  by (auto simp: run_cmd_def Let_def split: prod.splits)

lemma shutdownAllServices_trace:
  "\<exists>evs. trace (shutdownAllServices E dirs st) = trace st @ evs
       \<and> commands evs = map (\<lambda>d. (compose_down, d)) dirs \<and> chdirs evs = []"
proof (induction dirs arbitrary: st)
  case Nil
  show ?case by simp
next
  case (Cons dir dirs)
  obtain d where s: "snd (run_cmd E compose_down dir st)
      = advance d (emit (EvRun compose_down dir (clock st) (clock st + d)) st)"
    using run_cmd_state by blast
  from Cons [of "snd (run_cmd E compose_down dir st)"] obtain evs
    where "trace (shutdownAllServices E dirs (snd (run_cmd E compose_down dir st)))
             = trace (snd (run_cmd E compose_down dir st)) @ evs"
      and "commands evs = map (\<lambda>d. (compose_down, d)) dirs" and "chdirs evs = []"
    by blast
  then show ?case
    by (intro exI [of _ "EvRun compose_down dir (clock st) (clock st + d) # evs"])
       (simp add: s advance_def emit_def)
qed

lemma measure_F_trace:
  assumes "measureDetailedStartupTime_F E service dir st = Some (r, st')"
  shows "(r = Inl ChdirFailed \<and> added st st' = [EvChdir dir])
       \<or> (r = Inl StartFailed
           \<and> (\<exists>e. added st st'
                    = [EvChdir dir, EvSleep (5 * Second),
                       EvRun compose_up [] (clock st + 5 * Second) e,
                       EvChdir (currentDir st)]))
       \<or> (r = Inl ScaleFailed
           \<and> (\<exists>e e2. added st st'
                    = [EvChdir dir, EvSleep (5 * Second),
                       EvRun compose_up [] (clock st + 5 * Second) e, EvNow e,
                       EvRun (compose_scale (DockerName service)) [] e e2,
                       EvChdir (currentDir st)]))
       \<or> ((r = Inl NotStartedInTime \<or> (\<exists>x. r = Inr x))
           \<and> (\<exists>e e2 gets. added st st'
                    = [EvChdir dir, EvSleep (5 * Second),
                       EvRun compose_up [] (clock st + 5 * Second) e, EvNow e,
                       EvRun (compose_scale (DockerName service)) [] e e2]
                      @ gets @ [EvChdir (currentDir st)]
                 \<and> list_all is_get gets))"
proof (cases "ChdirOk E dir")
  case False
  with assms show ?thesis
    by (auto simp: measureDetailedStartupTime_F_def chdir_def Let_def emit_def added_def)
next
  case cd: True
  define st1 where "st1 = (emit (EvChdir dir) st)\<lparr>cwd := dir\<rparr>"
  define st2 where "st2 = sleep (5 * Second) st1"
  obtain ok_up st3 where up: "run_cmd E compose_up [] st2 = (ok_up, st3)"
    by (cases "run_cmd E compose_up [] st2")
  obtain d where "st3 = advance d (emit (EvRun compose_up [] (clock st2) (clock st2 + d)) st2)"
    using run_cmd_state [of E compose_up "[]" st2] up by auto
  then have t3: "trace st3 = trace st @ [EvChdir dir, EvSleep (5 * Second),
                       EvRun compose_up [] (clock st + 5 * Second) (clock st3)]"
    and c3: "currentDir st3 = currentDir st"
    by (simp_all add: st2_def st1_def sleep_def advance_def emit_def)
  show ?thesis
  proof (cases ok_up)
    case False
    with assms cd up have "r = Inl StartFailed" and "st' = chdir_back E st3"
      by (simp_all add: measureDetailedStartupTime_F_def chdir_def Let_def
            st1_def [symmetric] st2_def [symmetric])
    then show ?thesis
      using t3 c3 by (auto simp: chdir_back_def chdir_def emit_def added_def)
  next
    case ok1: True
    obtain ok_scale st4 where sc: "run_cmd E (compose_scale (DockerName service)) []
        (emit (EvNow (clock st3)) st3) = (ok_scale, st4)"
      by (cases "run_cmd E (compose_scale (DockerName service)) [] (emit (EvNow (clock st3)) st3)")
    obtain d2 where "st4 = advance d2 (emit (EvRun (compose_scale (DockerName service)) []
        (clock (emit (EvNow (clock st3)) st3)) (clock (emit (EvNow (clock st3)) st3) + d2))
        (emit (EvNow (clock st3)) st3))"
      using run_cmd_state [of E "compose_scale (DockerName service)" "[]"
          "emit (EvNow (clock st3)) st3"] sc by auto
    then have t4: "trace st4 = trace st @ [EvChdir dir, EvSleep (5 * Second),
                       EvRun compose_up [] (clock st + 5 * Second) (clock st3), EvNow (clock st3),
                       EvRun (compose_scale (DockerName service)) [] (clock st3) (clock st4)]"
      and c4: "currentDir st4 = currentDir st"
      by (simp_all add: t3 c3 advance_def emit_def)
    show ?thesis
    proof (cases ok_scale)
      case False
      with assms cd up ok1 sc have "r = Inl ScaleFailed" and "st' = chdir_back E st4"
        by (simp_all add: measureDetailedStartupTime_F_def chdir_def Let_def
              st1_def [symmetric] st2_def [symmetric])
      then show ?thesis
        using t4 c4 by (auto simp: chdir_back_def chdir_def emit_def added_def)
    next
      case True
      with assms cd up ok1 sc obtain q st5
        where w: "waitReady E healthTimeout_F service (clock st3) (clock st4)
                    (poll_init (clock st4)) st4 = Some (q, st5)"
          and r: "r = (case q of None \<Rightarrow> Inl NotStartedInTime
                        | Some p \<Rightarrow> Inr (consulTime p, healthTime p))"
          and s: "st' = chdir_back E st5"
        by (auto simp: measureDetailedStartupTime_F_def chdir_def Let_def bind_eq_Some_conv
              st1_def [symmetric] st2_def [symmetric])
      from waitReady_post [OF w] have "only_gets st4 st5" by simp
      then obtain gets where "trace st5 = trace st4 @ gets" and g: "list_all is_get gets"
        and "currentDir st5 = currentDir st4"
        by (auto simp: only_gets_def)
      with t4 c4 s have "added st st'
          = [EvChdir dir, EvSleep (5 * Second),
             EvRun compose_up [] (clock st + 5 * Second) (clock st3), EvNow (clock st3),
             EvRun (compose_scale (DockerName service)) [] (clock st3) (clock st4)]
            @ gets @ [EvChdir (currentDir st)]"
        by (auto simp: chdir_back_def chdir_def emit_def added_def)
      moreover from r have "r = Inl NotStartedInTime \<or> (\<exists>x. r = Inr x)"
        by (cases q) simp_all
      ultimately show ?thesis using g by blast
    qed
  qed
qed

lemma measure_S_trace:
  assumes "measureDetailedStartupTime_S E service dir st = Some (r, st')"
  shows "(r = Inl ChdirFailed \<and> added st st' = [EvChdir dir])
       \<or> (r = Inl StartFailed
           \<and> (\<exists>e e2. added st st'
                    = [EvChdir dir, EvRun compose_down [] (clock st) e, EvNow e,
                       EvRun compose_up [] e e2, EvChdir (currentDir st)]))
       \<or> ((r = Inl NotStartedInTime \<or> (\<exists>x. r = Inr x))
           \<and> (\<exists>e e2 gets. added st st'
                    = [EvChdir dir, EvRun compose_down [] (clock st) e, EvNow e,
                       EvRun compose_up [] e e2]
                      @ gets @ [EvChdir (currentDir st)]
                 \<and> list_all is_get gets))"
proof (cases "ChdirOk E dir")
  case False
  with assms show ?thesis
    by (auto simp: measureDetailedStartupTime_S_def chdir_def Let_def emit_def added_def)
next
  case cd: True
  define st1 where "st1 = (emit (EvChdir dir) st)\<lparr>cwd := dir\<rparr>"
  obtain ok_down st2 where down: "run_cmd E compose_down [] st1 = (ok_down, st2)"
    by (cases "run_cmd E compose_down [] st1")
  obtain d where "st2 = advance d (emit (EvRun compose_down [] (clock st1) (clock st1 + d)) st1)"
    using run_cmd_state [of E compose_down "[]" st1] down by auto
  then have t2: "trace st2 = trace st @ [EvChdir dir, EvRun compose_down [] (clock st) (clock st2)]"
    and c2: "currentDir st2 = currentDir st"
    by (simp_all add: st1_def advance_def emit_def)
  obtain ok_up st3 where up: "run_cmd E compose_up [] (emit (EvNow (clock st2)) st2) = (ok_up, st3)"
    by (cases "run_cmd E compose_up [] (emit (EvNow (clock st2)) st2)")
  obtain d2 where "st3 = advance d2 (emit (EvRun compose_up []
        (clock (emit (EvNow (clock st2)) st2)) (clock (emit (EvNow (clock st2)) st2) + d2))
        (emit (EvNow (clock st2)) st2))"
    using run_cmd_state [of E compose_up "[]" "emit (EvNow (clock st2)) st2"] up by auto
  then have t3: "trace st3 = trace st @ [EvChdir dir, EvRun compose_down [] (clock st) (clock st2),
                       EvNow (clock st2), EvRun compose_up [] (clock st2) (clock st3)]"
    and c3: "currentDir st3 = currentDir st"
    by (simp_all add: t2 c2 advance_def emit_def)
  show ?thesis
  proof (cases ok_up)
    case False
    with assms cd down up have "r = Inl StartFailed" and "st' = chdir_back E st3"
      by (simp_all add: measureDetailedStartupTime_S_def chdir_def Let_def st1_def [symmetric])
    then show ?thesis
      using t3 c3 by (auto simp: chdir_back_def chdir_def emit_def added_def)
  next
    case True
    with assms cd down up obtain q st4
      where w: "waitReady E healthTimeout_S service (clock st2) (clock st3)
                  (poll_init (clock st3)) st3 = Some (q, st4)"
        and r: "r = (case q of None \<Rightarrow> Inl NotStartedInTime
                      | Some p \<Rightarrow>
                          Inr \<lparr>totalStartupTime = Seconds (Since (clock st2) (clock st4)),
                               consulCheckTime = consulTime p,
                               healthCheckTime = healthTime p,
                               consulPassed = consulReady p,
                               containerStartTime = Seconds (Since (clock st2) (clock st3))\<rparr>)"
        and s: "st' = chdir_back E st4"
      by (auto simp: measureDetailedStartupTime_S_def chdir_def Let_def bind_eq_Some_conv
            st1_def [symmetric])
    from waitReady_post [OF w] have "only_gets st3 st4" by simp
    then obtain gets where "trace st4 = trace st3 @ gets" and g: "list_all is_get gets"
      and "currentDir st4 = currentDir st3"
      by (auto simp: only_gets_def)
    with t3 c3 s have "added st st'
        = [EvChdir dir, EvRun compose_down [] (clock st) (clock st2),
           EvNow (clock st2), EvRun compose_up [] (clock st2) (clock st3)]
          @ gets @ [EvChdir (currentDir st)]"
      by (auto simp: chdir_back_def chdir_def emit_def added_def)
    moreover from r have "r = Inl NotStartedInTime \<or> (\<exists>x. r = Inr x)"
      by (cases q) simp_all
    ultimately show ?thesis using g by blast
  qed
qed

text \<open>What a call leaves of the working directory and of the package-level variables.\<close>

lemma run_cmd_frame:
  "cwd (snd (run_cmd E argv dir st)) = cwd st"
  "currentDir (snd (run_cmd E argv dir st)) = currentDir st"
  "serviceDirs (snd (run_cmd E argv dir st)) = serviceDirs st"
  by (simp_all add: run_cmd_def Let_def advance_def emit_def split: prod.splits)

lemma sleep_frame:
  "cwd (sleep d st) = cwd st" "currentDir (sleep d st) = currentDir st"
  "serviceDirs (sleep d st) = serviceDirs st"
  by (simp_all add: sleep_def advance_def emit_def)

lemma emit_frame:
  "cwd (emit e st) = cwd st" "currentDir (emit e st) = currentDir st"
  "serviceDirs (emit e st) = serviceDirs st"
  by (simp_all add: emit_def)

lemma chdir_frame:
  "fst (chdir E dir st) = ChdirOk E dir"
  "cwd (snd (chdir E dir st)) = (if ChdirOk E dir then dir else cwd st)"
  "currentDir (snd (chdir E dir st)) = currentDir st"
  "serviceDirs (snd (chdir E dir st)) = serviceDirs st"
  by (simp_all add: chdir_def emit_def)

lemma chdir_back_frame:
  "cwd (chdir_back E st) = (if ChdirOk E (currentDir st) then currentDir st else cwd st)"
  "currentDir (chdir_back E st) = currentDir st"
  "serviceDirs (chdir_back E st) = serviceDirs st"
  by (simp_all add: chdir_back_def chdir_frame)

lemma waitReady_frame:
  assumes "waitReady E timeout service startTime t0 p st = Some (r, st')"
  shows "cwd st' = cwd st" "currentDir st' = currentDir st" "serviceDirs st' = serviceDirs st"
  using waitReady_post [OF assms] by (simp_all add: only_gets_def)

lemma shutdownAllServices_frame:
  "cwd (shutdownAllServices E dirs st) = cwd st"
  "currentDir (shutdownAllServices E dirs st) = currentDir st"
  "serviceDirs (shutdownAllServices E dirs st) = serviceDirs st"
  by (induction dirs arbitrary: st) (simp_all add: run_cmd_frame)

lemma measure_F_cwd:
  assumes "measureDetailedStartupTime_F E service dir st = Some (r, st')"
  shows "(r = Inl ChdirFailed \<longleftrightarrow> \<not> ChdirOk E dir)
       \<and> cwd st' = (if \<not> ChdirOk E dir then cwd st
                    else if ChdirOk E (currentDir st) then currentDir st else dir)
       \<and> currentDir st' = currentDir st \<and> serviceDirs st' = serviceDirs st"
proof -
  obtain ok st1 where c: "chdir E dir st = (ok, st1)" by (cases "chdir E dir st")
  then have ok: "ok = ChdirOk E dir"
    and f1: "cwd st1 = (if ChdirOk E dir then dir else cwd st)"
      "currentDir st1 = currentDir st" "serviceDirs st1 = serviceDirs st"
    using chdir_frame [of E dir st] by simp_all
  obtain ok_up st3 where u: "run_cmd E compose_up [] (sleep (5 * Second) st1) = (ok_up, st3)"
    by (cases "run_cmd E compose_up [] (sleep (5 * Second) st1)")
  then have f3: "cwd st3 = cwd st1" "currentDir st3 = currentDir st1" "serviceDirs st3 = serviceDirs st1"
    using run_cmd_frame [of E compose_up "[]" "sleep (5 * Second) st1"]
    by (simp_all add: sleep_frame)
  obtain ok_scale st4
    where s: "run_cmd E (compose_scale (DockerName service)) [] (emit (EvNow (clock st3)) st3)
               = (ok_scale, st4)"
    by (cases "run_cmd E (compose_scale (DockerName service)) [] (emit (EvNow (clock st3)) st3)")
  then have f4: "cwd st4 = cwd st1" "currentDir st4 = currentDir st1" "serviceDirs st4 = serviceDirs st1"
    using run_cmd_frame [of E "compose_scale (DockerName service)" "[]" "emit (EvNow (clock st3)) st3"] f3
    by (simp_all add: emit_frame)
  show ?thesis
  proof (cases "ChdirOk E dir")
    case False
    with assms ok f1 show ?thesis
      by (simp add: measureDetailedStartupTime_F_def Let_def c)
  next
    case True
    have "\<exists>sx. st' = chdir_back E sx \<and> r \<noteq> Inl ChdirFailed
        \<and> cwd sx = cwd st1 \<and> currentDir sx = currentDir st1 \<and> serviceDirs sx = serviceDirs st1"
    proof (cases "ok_up \<and> ok_scale")
      case False
      with assms True ok f3 f4 show ?thesis
        by (auto simp: measureDetailedStartupTime_F_def Let_def c u s split: if_splits)
    next
      case both: True
      with assms True ok obtain q st5
        where w: "waitReady E healthTimeout_F service (clock st3) (clock st4)
                    (poll_init (clock st4)) st4 = Some (q, st5)"
          and r: "r = (case q of None \<Rightarrow> Inl NotStartedInTime
                             | Some p \<Rightarrow> Inr (consulTime p, healthTime p))"
          and e: "st' = chdir_back E st5"
        by (auto simp: measureDetailedStartupTime_F_def Let_def c u s bind_eq_Some_conv)
      from r have "r \<noteq> Inl ChdirFailed" by (cases q) simp_all
      with e waitReady_frame [OF w] f4 show ?thesis by auto
    qed
    then obtain sx where "st' = chdir_back E sx" and "r \<noteq> Inl ChdirFailed"
      and "cwd sx = cwd st1" and "currentDir sx = currentDir st1"
      and "serviceDirs sx = serviceDirs st1"
      by blast
    with True f1 show ?thesis
      by (simp add: chdir_back_frame)
  qed
qed

lemma measure_S_cwd:
  assumes "measureDetailedStartupTime_S E service dir st = Some (r, st')"
  shows "(r = Inl ChdirFailed \<longleftrightarrow> \<not> ChdirOk E dir)
       \<and> cwd st' = (if \<not> ChdirOk E dir then cwd st
                    else if ChdirOk E (currentDir st) then currentDir st else dir)
       \<and> currentDir st' = currentDir st \<and> serviceDirs st' = serviceDirs st"
proof -
  obtain ok st1 where c: "chdir E dir st = (ok, st1)" by (cases "chdir E dir st")
  then have ok: "ok = ChdirOk E dir"
    and f1: "cwd st1 = (if ChdirOk E dir then dir else cwd st)"
      "currentDir st1 = currentDir st" "serviceDirs st1 = serviceDirs st"
    using chdir_frame [of E dir st] by simp_all
  obtain ok_down st2 where d: "run_cmd E compose_down [] st1 = (ok_down, st2)"
    by (cases "run_cmd E compose_down [] st1")
  then have f2: "cwd st2 = cwd st1" "currentDir st2 = currentDir st1" "serviceDirs st2 = serviceDirs st1"
    using run_cmd_frame [of E compose_down "[]" st1] by simp_all
  obtain ok_up st3 where u: "run_cmd E compose_up [] (emit (EvNow (clock st2)) st2) = (ok_up, st3)"
    by (cases "run_cmd E compose_up [] (emit (EvNow (clock st2)) st2)")
  then have f3: "cwd st3 = cwd st1" "currentDir st3 = currentDir st1" "serviceDirs st3 = serviceDirs st1"
    using run_cmd_frame [of E compose_up "[]" "emit (EvNow (clock st2)) st2"] f2
    by (simp_all add: emit_frame)
  show ?thesis
  proof (cases "ChdirOk E dir")
    case False
    with assms ok f1 show ?thesis
      by (simp add: measureDetailedStartupTime_S_def Let_def c)
  next
    case True
    have "\<exists>sx. st' = chdir_back E sx \<and> r \<noteq> Inl ChdirFailed
        \<and> cwd sx = cwd st1 \<and> currentDir sx = currentDir st1 \<and> serviceDirs sx = serviceDirs st1"
    proof (cases ok_up)
      case False
      with assms True ok f3 show ?thesis
        by (auto simp: measureDetailedStartupTime_S_def Let_def c d u split: if_splits)
    next
      case up: True
      with assms True ok obtain q st4
        where w: "waitReady E healthTimeout_S service (clock st2) (clock st3)
                    (poll_init (clock st3)) st3 = Some (q, st4)"
          and r: "r = (case q of None \<Rightarrow> Inl NotStartedInTime
                             | Some p \<Rightarrow>
                               Inr \<lparr>totalStartupTime = Seconds (Since (clock st2) (clock st4)),
                                    consulCheckTime = consulTime p,
                                    healthCheckTime = healthTime p,
                                    consulPassed = consulReady p,
                                    containerStartTime = Seconds (Since (clock st2) (clock st3))\<rparr>)"
          and e: "st' = chdir_back E st4"
        by (auto simp: measureDetailedStartupTime_S_def Let_def c d u bind_eq_Some_conv)
      from r have "r \<noteq> Inl ChdirFailed" by (cases q) simp_all
      with e waitReady_frame [OF w] f3 show ?thesis by auto
    qed
    then obtain sx where "st' = chdir_back E sx" and "r \<noteq> Inl ChdirFailed"
      and "cwd sx = cwd st1" and "currentDir sx = currentDir st1"
      and "serviceDirs sx = serviceDirs st1"
      by blast
    with True f1 show ?thesis
      by (simp add: chdir_back_frame)
  qed
qed

text \<open>
  Claim C8 as stated says that every lifecycle command gets its working directory as an
  argument and that the process working directory is not changed. In the example world
  the measurement of the failure-recovery harness changes the directory and runs its
  commands without a \<^verbatim>\<open>Dir\<close>.
\<close>

theorem directory_as_argument_counterexample:
  "map_option (\<lambda>(r, st'). dir_on_every_command (added st_up st') \<and> no_chdir (added st_up st'))
     (measureDetailedStartupTime_F E_up weather weather_dir st_up)
   = Some False"
  unfolding measure_F_up by (simp add: added_def st_up_def dir_on_every_command_def no_chdir_def)

text \<open>
  Claim C8, as amended. \<open>measureDetailedStartupTime\<close> (of either harness) calls
  \<^verbatim>\<open>os.Chdir\<close> on the service directory and returns the error of that call, with the
  working directory as it was, if and only if the call fails. Otherwise it calls
  \<^verbatim>\<open>os.Chdir\<close> once more, on the package-level \<open>currentDir\<close>, and a failure of that
  call only warns: when the measurement returns the process is in \<open>currentDir\<close> if the
  call succeeded and still in the service directory if not. These are its only calls of
  \<^verbatim>\<open>os.Chdir\<close>, in this order; every command it runs leaves \<^verbatim>\<open>Dir\<close> unset; it leaves
  \<open>currentDir\<close> and \<open>serviceDirs\<close> as they were. \<open>shutdownAllServices\<close> runs one
  \<^verbatim>\<open>docker-compose down\<close> per directory with \<^verbatim>\<open>Dir\<close> set to it and changes no directory.
  \<open>getSubdirectories\<close> stores the directories it finds in the package-level
  \<open>serviceDirs\<close>, and main stores the result of \<^verbatim>\<open>os.Getwd\<close> in the package-level
  \<open>currentDir\<close> (the empty string if it fails) without changing directory.
\<close>

theorem working_directory_handling:
  "(measureDetailedStartupTime_F E service dir st = Some (r, st') \<longrightarrow>
      chdirs (added st st') = (if r = Inl ChdirFailed then [dir] else [dir, currentDir st])
      \<and> list_all (\<lambda>(argv, d). d = []) (commands (added st st'))
      \<and> (r = Inl ChdirFailed \<longleftrightarrow> \<not> ChdirOk E dir)
      \<and> cwd st' = (if \<not> ChdirOk E dir then cwd st
                   else if ChdirOk E (currentDir st) then currentDir st else dir)
      \<and> currentDir st' = currentDir st \<and> serviceDirs st' = serviceDirs st)
   \<and> (measureDetailedStartupTime_S E service dir st = Some (r2, st2) \<longrightarrow>
      chdirs (added st st2) = (if r2 = Inl ChdirFailed then [dir] else [dir, currentDir st])
      \<and> list_all (\<lambda>(argv, d). d = []) (commands (added st st2))
      \<and> (r2 = Inl ChdirFailed \<longleftrightarrow> \<not> ChdirOk E dir)
      \<and> cwd st2 = (if \<not> ChdirOk E dir then cwd st
                   else if ChdirOk E (currentDir st) then currentDir st else dir)
      \<and> currentDir st2 = currentDir st \<and> serviceDirs st2 = serviceDirs st)
   \<and> commands (added st (shutdownAllServices E dirs st)) = map (\<lambda>d. (compose_down, d)) dirs
   \<and> chdirs (added st (shutdownAllServices E dirs st)) = []
   \<and> cwd (shutdownAllServices E dirs st) = cwd st
   \<and> serviceDirs (snd (getSubdirectories E rootdir st)) = fst (WalkDirs E rootdir)
   \<and> currentDir (getwd E st) = (if GetwdOk E then cwd st else [])
   \<and> cwd (getwd E st) = cwd st"
proof (intro conjI impI)
  assume m: "measureDetailedStartupTime_F E service dir st = Some (r, st')"
  from measure_F_trace [OF m]
  show "chdirs (added st st') = (if r = Inl ChdirFailed then [dir] else [dir, currentDir st])"
    by (elim disjE conjE exE) (auto simp: chdirs_append gets_silent)
  from measure_F_trace [OF m]
  show "list_all (\<lambda>(argv, d). d = []) (commands (added st st'))"
    by (elim disjE conjE exE) (auto simp: commands_append gets_silent)
  from measure_F_cwd [OF m]
  show "r = Inl ChdirFailed \<longleftrightarrow> \<not> ChdirOk E dir"
    and "cwd st' = (if \<not> ChdirOk E dir then cwd st
                   else if ChdirOk E (currentDir st) then currentDir st else dir)"
    and "currentDir st' = currentDir st" and "serviceDirs st' = serviceDirs st"
    by blast+
next
  assume m: "measureDetailedStartupTime_S E service dir st = Some (r2, st2)"
  from measure_S_trace [OF m]
  show "chdirs (added st st2) = (if r2 = Inl ChdirFailed then [dir] else [dir, currentDir st])"
    by (elim disjE conjE exE) (auto simp: chdirs_append gets_silent)
  from measure_S_trace [OF m]
  show "list_all (\<lambda>(argv, d). d = []) (commands (added st st2))"
    by (elim disjE conjE exE) (auto simp: commands_append gets_silent)
  from measure_S_cwd [OF m]
  show "r2 = Inl ChdirFailed \<longleftrightarrow> \<not> ChdirOk E dir"
    and "cwd st2 = (if \<not> ChdirOk E dir then cwd st
                   else if ChdirOk E (currentDir st) then currentDir st else dir)"
    and "currentDir st2 = currentDir st" and "serviceDirs st2 = serviceDirs st"
    by blast+
next
  from shutdownAllServices_trace [of E dirs st] obtain evs
    where "trace (shutdownAllServices E dirs st) = trace st @ evs"
      and c: "commands evs = map (\<lambda>d. (compose_down, d)) dirs" and d: "chdirs evs = []"
    by blast
  then have a: "added st (shutdownAllServices E dirs st) = evs" by (simp add: added_def)
  show "commands (added st (shutdownAllServices E dirs st)) = map (\<lambda>d. (compose_down, d)) dirs"
    by (simp add: a c)
  show "chdirs (added st (shutdownAllServices E dirs st)) = []"
    by (simp add: a d)
  show "cwd (shutdownAllServices E dirs st) = cwd st"
    by (rule shutdownAllServices_frame)
next
  show "serviceDirs (snd (getSubdirectories E rootdir st)) = fst (WalkDirs E rootdir)"
    by (simp add: getSubdirectories_def emit_def split: prod.splits)
  show "currentDir (getwd E st) = (if GetwdOk E then cwd st else [])"
    by (simp add: getwd_def)
  show "cwd (getwd E st) = cwd st"
    by (simp add: getwd_def emit_def)
qed

text \<open>
  The witness: in \<open>E_up\<close> both changes of directory succeed; in \<open>E_noback\<close> the change
  back fails and the measurement of either harness returns in the service directory.
\<close>

theorem working_directory_handling_witness:
  "measureDetailedStartupTime_F E_up weather weather_dir st_up
     = Some (Inr (201 / 50, 101 / 25),
        st_up\<lparr>clock := 12040000000,
          trace := [EvChdir weather_dir, EvSleep 5000000000,
                    EvRun compose_up [] 5000000000 8000000000,
                    EvNow 8000000000,
                    EvRun (compose_scale ''weather'') [] 8000000000 11000000000,
                    EvHttpGet (consul_checks_url ''weather''),
                    EvHttpGet ''http://weather.localhost/health'',
                    EvChdir ''/repo/Testing/Failure'']\<rparr>)
   \<and> chdirs (added st_up
        (st_up\<lparr>clock := 12040000000,
          trace := [EvChdir weather_dir, EvSleep 5000000000,
                    EvRun compose_up [] 5000000000 8000000000,
                    EvNow 8000000000,
                    EvRun (compose_scale ''weather'') [] 8000000000 11000000000,
                    EvHttpGet (consul_checks_url ''weather''),
                    EvHttpGet ''http://weather.localhost/health'',
                    EvChdir ''/repo/Testing/Failure'']\<rparr>))
       = [weather_dir, ''/repo/Testing/Failure'']
   \<and> ChdirOk E_up weather_dir \<and> ChdirOk E_up (currentDir st_up)
   \<and> (\<exists>r st'. measureDetailedStartupTime_F E_noback weather weather_dir st_up = Some (r, st')
         \<and> r \<noteq> Inl ChdirFailed \<and> cwd st' = weather_dir
         \<and> chdirs (added st_up st') = [weather_dir, ''/repo/Testing/Failure''])
   \<and> (\<exists>r st'. measureDetailedStartupTime_S E_noback weather weather_dir st_up = Some (r, st')
         \<and> r \<noteq> Inl ChdirFailed \<and> cwd st' = weather_dir
         \<and> chdirs (added st_up st') = [weather_dir, ''/repo/Testing/Failure''])
   \<and> ChdirOk E_noback weather_dir \<and> \<not> ChdirOk E_noback (currentDir st_up)"
proof -
  have fair: "\<forall>t0. \<exists>k\<ge>119. Pick E_noback t0 k"
    by (auto simp: E_noback_def E_up_def)
  have ans: "\<forall>t. \<not> NeverReturns E_noback t (consul_checks_url (ConsulKey weather))"
    by (simp add: E_noback_def E_up_def)
  have c: "ChdirOk E_noback weather_dir" "\<not> ChdirOk E_noback (currentDir st_up)"
    by (simp_all add: E_noback_def weather_dir_def st_up_def)
  have u: "ChdirOk E_up weather_dir" "ChdirOk E_up (currentDir st_up)"
    by (simp_all add: E_up_def)
  from measure_F_total [OF fair ans, of weather_dir st_up] obtain r st'
    where mF: "measureDetailedStartupTime_F E_noback weather weather_dir st_up = Some (r, st')"
    by auto
  from measure_S_total [OF fair ans, of weather_dir st_up] obtain r2 st2
    where mS: "measureDetailedStartupTime_S E_noback weather weather_dir st_up = Some (r2, st2)"
    by auto
  note t = working_directory_handling [of E_noback weather weather_dir st_up r st' r2 st2 "[]" "[]"]
  from t mF c have F: "\<exists>r st'. measureDetailedStartupTime_F E_noback weather weather_dir st_up = Some (r, st')
         \<and> r \<noteq> Inl ChdirFailed \<and> cwd st' = weather_dir
         \<and> chdirs (added st_up st') = [weather_dir, ''/repo/Testing/Failure'']"
    by (simp add: st_up_def)
  from t mS c have S: "\<exists>r st'. measureDetailedStartupTime_S E_noback weather weather_dir st_up = Some (r, st')
         \<and> r \<noteq> Inl ChdirFailed \<and> cwd st' = weather_dir
         \<and> chdirs (added st_up st') = [weather_dir, ''/repo/Testing/Failure'']"
    by (simp add: st_up_def)
  note t_up = working_directory_handling [of E_up weather weather_dir st_up _ _ _ _ "[]" "[]"]
  have U: "measureDetailedStartupTime_F E_up weather weather_dir st_up
     = Some (Inr (201 / 50, 101 / 25),
        st_up\<lparr>clock := 12040000000,
          trace := [EvChdir weather_dir, EvSleep 5000000000,
                    EvRun compose_up [] 5000000000 8000000000,
                    EvNow 8000000000,
                    EvRun (compose_scale ''weather'') [] 8000000000 11000000000,
                    EvHttpGet (consul_checks_url ''weather''),
                    EvHttpGet ''http://weather.localhost/health'',
                    EvChdir ''/repo/Testing/Failure'']\<rparr>)
   \<and> chdirs (added st_up
        (st_up\<lparr>clock := 12040000000,
          trace := [EvChdir weather_dir, EvSleep 5000000000,
                    EvRun compose_up [] 5000000000 8000000000,
                    EvNow 8000000000,
                    EvRun (compose_scale ''weather'') [] 8000000000 11000000000,
                    EvHttpGet (consul_checks_url ''weather''),
                    EvHttpGet ''http://weather.localhost/health'',
                    EvChdir ''/repo/Testing/Failure'']\<rparr>))
       = [weather_dir, ''/repo/Testing/Failure'']"
    using t_up measure_F_up by (simp add: st_up_def)
  from U u F S c show ?thesis by blast
qed

text \<open>
  Claim C9 as stated says that the completion of the scaled \<^verbatim>\<open>up\<close> starts the clock. In
  the example world the start instant is read at 8 seconds and the scaled \<^verbatim>\<open>up\<close>
  returns at 11 seconds.
\<close>

theorem clock_start_counterexample:
  "map_option (\<lambda>(r, st'). clock_starts_at_scale_completion (added st_up st'))
     (measureDetailedStartupTime_F E_up weather weather_dir st_up)
   = Some False"
  unfolding measure_F_up
  by (simp add: added_def st_up_def clock_starts_at_scale_completion_def
      compose_scale_def compose_up_def)

text \<open>
  Claim C9, as amended. The commands of one failure-recovery measurement are, in this
  order and as far as it gets, the plain \<^verbatim>\<open>up\<close> and the scaled \<^verbatim>\<open>up\<close>: no
  \<^verbatim>\<open>down\<close> or \<^verbatim>\<open>stop\<close>. The plain \<^verbatim>\<open>up\<close> runs after the sleep of 5 seconds. The
  start instant is read once, when the plain \<^verbatim>\<open>up\<close> has returned and immediately
  before the scaled \<^verbatim>\<open>up\<close> is run: the clock starts when the scaled \<^verbatim>\<open>up\<close> starts.
\<close>

theorem failure_cycle_commands:
  assumes "measureDetailedStartupTime_F E service dir st = Some (r, st')"
  shows "map fst (commands (added st st'))
           \<in> {[], [compose_up], [compose_up, compose_scale (DockerName service)]}
       \<and> (r \<noteq> Inl ChdirFailed \<longrightarrow>
            (\<exists>e. take 3 (added st st')
                   = [EvChdir dir, EvSleep (5 * Second),
                      EvRun compose_up [] (clock st + 5 * Second) e]))
       \<and> (r \<noteq> Inl ChdirFailed \<and> r \<noteq> Inl StartFailed \<longrightarrow>
            (\<exists>e e2. take 5 (added st st')
                   = [EvChdir dir, EvSleep (5 * Second),
                      EvRun compose_up [] (clock st + 5 * Second) e, EvNow e,
                      EvRun (compose_scale (DockerName service)) [] e e2]
                \<and> start_instants (added st st') = [e]))"
  using measure_F_trace [OF assms]
  by (elim disjE conjE exE)
     (auto simp: commands_append start_instants_append gets_silent)

theorem failure_cycle_commands_witness:
  "measureDetailedStartupTime_F E_up weather weather_dir st_up
     = Some (Inr (201 / 50, 101 / 25),
        st_up\<lparr>clock := 12040000000,
          trace := [EvChdir weather_dir, EvSleep 5000000000,
                    EvRun compose_up [] 5000000000 8000000000,
                    EvNow 8000000000,
                    EvRun (compose_scale ''weather'') [] 8000000000 11000000000,
                    EvHttpGet (consul_checks_url ''weather''),
                    EvHttpGet ''http://weather.localhost/health'',
                    EvChdir ''/repo/Testing/Failure'']\<rparr>)
   \<and> map fst (commands (added st_up
        (st_up\<lparr>clock := 12040000000,
          trace := [EvChdir weather_dir, EvSleep 5000000000,
                    EvRun compose_up [] 5000000000 8000000000,
                    EvNow 8000000000,
                    EvRun (compose_scale ''weather'') [] 8000000000 11000000000,
                    EvHttpGet (consul_checks_url ''weather''),
                    EvHttpGet ''http://weather.localhost/health'',
                    EvChdir ''/repo/Testing/Failure'']\<rparr>)))
       = [compose_up, compose_scale (DockerName weather)]"
  using failure_cycle_commands [OF measure_F_up] measure_F_up
  by (simp add: st_up_def added_def weather_def)

end
